theory Spec2Isabelle
  imports Complex_Main "HOL-Library.List_Lexorder" "HOL-Library.Char_ord"
begin

section \<open>Cells, series and tables\<close>

text \<open>
  The scripts work on pandas data frames. An entry of a column is a finite number, one of
  the two IEEE infinities, a missing value (pandas' NaN or None) or a string. Numbers are
  exact reals: rounding and signed zeros are not modelled. A series is a name and its
  values; a table is the list of its labelled columns, in order, and a label may occur
  more than once (\<open>pd.concat\<close> does not rename). The row index is the default one
  (\<open>0..R-1\<close>) throughout, so that joining columns side by side needs no alignment.
\<close>

datatype cell = Num real | PosInf | NegInf | NaN | Str string

type_synonym column = "cell list"
type_synonym series = "string \<times> column"
type_synonym table = "(string \<times> column) list"

datatype error = KeyError string | TypeError | ValueError | FileNotFoundError

fun is_Str :: "cell \<Rightarrow> bool" where
  "is_Str (Str s) = True"
| "is_Str c = False"

fun is_Inf :: "cell \<Rightarrow> bool" where
  "is_Inf PosInf = True"
| "is_Inf NegInf = True"
| "is_Inf c = False"

text \<open>The finite numbers of a column, in row order.\<close>

fun numeric_values :: "column \<Rightarrow> real list" where
  "numeric_values [] = []"
| "numeric_values (Num x # cs) = x # numeric_values cs"
| "numeric_values (c # cs) = numeric_values cs"

subsection \<open>Arithmetic of a series with a scalar\<close>

text \<open>
  \<open>feature - mean\<close> and \<open>... / std\<close> work entry by entry with IEEE rules: a missing
  operand gives a missing result, \<open>0 / 0\<close> is NaN and \<open>x / 0\<close> is an infinity with the sign
  of \<open>x\<close> (no exception is raised). A string operand raises \<open>TypeError\<close>.
\<close>

fun cell_sub :: "cell \<Rightarrow> cell \<Rightarrow> error + cell" where
  "cell_sub (Str s) b = Inl TypeError"
| "cell_sub a (Str s) = Inl TypeError"
| "cell_sub NaN b = Inr NaN"
| "cell_sub a NaN = Inr NaN"
| "cell_sub (Num a) (Num b) = Inr (Num (a - b))"
| "cell_sub (Num a) PosInf = Inr NegInf"
| "cell_sub (Num a) NegInf = Inr PosInf"
| "cell_sub PosInf PosInf = Inr NaN"
| "cell_sub NegInf NegInf = Inr NaN"
| "cell_sub PosInf b = Inr PosInf"
| "cell_sub NegInf b = Inr NegInf"

fun cell_div :: "cell \<Rightarrow> cell \<Rightarrow> error + cell" where
  "cell_div (Str s) b = Inl TypeError"
| "cell_div a (Str s) = Inl TypeError"
| "cell_div NaN b = Inr NaN"
| "cell_div a NaN = Inr NaN"
| "cell_div (Num a) (Num b) =
     (if b \<noteq> 0 then Inr (Num (a / b))
      else if a = 0 then Inr NaN
      else if 0 < a then Inr PosInf else Inr NegInf)"
| "cell_div (Num a) b = Inr (Num 0)"
| "cell_div PosInf (Num b) = (if 0 \<le> b then Inr PosInf else Inr NegInf)"
| "cell_div NegInf (Num b) = (if 0 \<le> b then Inr NegInf else Inr PosInf)"
| "cell_div a b = Inr NaN"

text \<open>Applying a fallible entry operation down a column stops at the first exception.\<close>

fun map_err :: "('a \<Rightarrow> error + 'b) \<Rightarrow> 'a list \<Rightarrow> error + 'b list" where
  "map_err f [] = Inr []"
| "map_err f (x # xs) =
     (case f x of Inl e \<Rightarrow> Inl e
      | Inr y \<Rightarrow> (case map_err f xs of Inl e \<Rightarrow> Inl e | Inr ys \<Rightarrow> Inr (y # ys)))"

subsection \<open>Mean and standard deviation\<close>

definition mean :: "real list \<Rightarrow> real" where
  "mean xs = sum_list xs / real (length xs)"

definition pstd :: "real list \<Rightarrow> real" where
  "pstd xs = sqrt (sum_list (map (\<lambda>x. (x - mean xs)\<^sup>2) xs) / real (length xs))"

text \<open>
  \<open>np.mean\<close> and \<open>np.std\<close> of a series are the series' own \<open>mean()\<close> and \<open>std(ddof=0)\<close>:
  missing entries are skipped, the deviation is the population one, a series with no
  entry left gives NaN, strings raise \<open>TypeError\<close>. An infinite entry makes the mean
  infinite (NaN when both signs occur) and the deviation NaN.
\<close>

definition np_mean :: "column \<Rightarrow> error + cell" where
  "np_mean s =
     (if list_ex is_Str s then Inl TypeError
      else if filter (\<lambda>c. c \<noteq> NaN) s = [] then Inr NaN
      else if PosInf \<in> set s \<and> NegInf \<in> set s then Inr NaN
      else if PosInf \<in> set s then Inr PosInf
      else if NegInf \<in> set s then Inr NegInf
      else Inr (Num (mean (numeric_values s))))"

definition np_std :: "column \<Rightarrow> error + cell" where
  "np_std s =
     (if list_ex is_Str s then Inl TypeError
      else if filter (\<lambda>c. c \<noteq> NaN) s = [] then Inr NaN
      else if list_ex is_Inf s then Inr NaN
      else Inr (Num (pstd (numeric_values s))))"

section \<open>The column functions of \<open>single_responsibility_1.py\<close>\<close>

text \<open>
  \<open>normalize_feature\<close>: \<open>std = np.std(feature); mean = np.mean(feature);
  return (feature - mean) / std\<close>. The result keeps the name of the series.
\<close>

definition standardize :: "column \<Rightarrow> error + column" where
  "standardize s =
     (case np_std s of Inl e \<Rightarrow> Inl e
      | Inr std \<Rightarrow>
        (case np_mean s of Inl e \<Rightarrow> Inl e
         | Inr mu \<Rightarrow>
           map_err (\<lambda>x. case cell_sub x mu of Inl e \<Rightarrow> Inl e
                         | Inr d \<Rightarrow> cell_div d std) s))"

definition normalize_feature :: "series \<Rightarrow> error + series" where
  "normalize_feature feature =
     (case standardize (snd feature) of Inl e \<Rightarrow> Inl e
      | Inr v \<Rightarrow> Inr (fst feature, v))"

text \<open>\<open>fill_feature\<close>: \<open>feature.fillna(value=value)\<close>, with \<open>-1\<close> as the default value.\<close>

definition fillna :: "column \<Rightarrow> cell \<Rightarrow> column" where
  "fillna s v = map (\<lambda>c. if c = NaN then v else c) s"

definition fill_feature :: "series \<Rightarrow> cell \<Rightarrow> series" where
  "fill_feature feature v = (fst feature, fillna (snd feature) v)"


subsection \<open>Label encoding\<close>

text \<open>
  \<open>LabelEncoder.fit_transform\<close> (scikit-learn) takes the distinct values of the column in
  sorted order as \<open>classes_\<close> and returns, for each row, the position of its value in
  \<open>classes_\<close>. Strings are compared as Python compares them (lexicographically by
  character code); a column that mixes strings and numbers raises \<open>TypeError\<close>; a missing
  value is listed once, after every other class.
\<close>

definition np_unique :: "'a::linorder list \<Rightarrow> 'a list" where
  "np_unique xs = sort (remdups xs)"

fun index_of :: "'a list \<Rightarrow> 'a \<Rightarrow> nat" where
  "index_of [] y = 0"
| "index_of (x # xs) y = (if x = y then 0 else Suc (index_of xs y))"

fun str_values :: "column \<Rightarrow> string list" where
  "str_values [] = []"
| "str_values (Str s # cs) = s # str_values cs"
| "str_values (c # cs) = str_values cs"

definition classes_of :: "column \<Rightarrow> error + cell list" where
  "classes_of y =
     (let missing = (if NaN \<in> set y then [NaN] else []) in
      if list_all (\<lambda>c. is_Str c \<or> c = NaN) y
      then Inr (map Str (np_unique (str_values y)) @ missing)
      else if list_ex is_Str y then Inl TypeError
      else Inr ((if NegInf \<in> set y then [NegInf] else [])
                @ map Num (np_unique (numeric_values y))
                @ (if PosInf \<in> set y then [PosInf] else [])
                @ missing))"

definition fit_transform :: "column \<Rightarrow> error + (cell list \<times> nat list)" where
  "fit_transform y =
     (case classes_of y of Inl e \<Rightarrow> Inl e
      | Inr classes \<Rightarrow> Inr (classes, map (index_of classes) y))"

text \<open>
  \<open>LabelEncoder.inverse_transform\<close> reads the codes back through \<open>classes_\<close> and raises
  \<open>ValueError\<close> on a code that is no position of \<open>classes_\<close>.
\<close>

definition inverse_transform :: "cell list \<Rightarrow> nat list \<Rightarrow> error + column" where
  "inverse_transform classes codes =
     (if list_ex (\<lambda>i. length classes \<le> i) codes then Inl ValueError
      else Inr (map (\<lambda>i. classes ! i) codes))"

definition int_column :: "nat list \<Rightarrow> column" where
  "int_column codes = map (\<lambda>n. Num (real n)) codes"

text \<open>
  \<open>encode_feature\<close>: \<open>array = LabelEncoder().fit_transform(feature);
  return pd.Series(array, name=feature.name)\<close>.
\<close>

definition encode_feature :: "series \<Rightarrow> error + series" where
  "encode_feature feature =
     (case fit_transform (snd feature) of Inl e \<Rightarrow> Inl e
      | Inr (classes, codes) \<Rightarrow> Inr (fst feature, int_column codes))"

subsection \<open>Reading and writing columns of a table\<close>

text \<open>
  \<open>df[name]\<close> raises \<open>KeyError\<close> when no column has the label and gives the column when
  exactly one has it. When several have it, pandas gives the data frame of all of them.
\<close>

definition select :: "table \<Rightarrow> string \<Rightarrow> column list" where
  "select df name = map snd (filter (\<lambda>p. fst p = name) df)"

text \<open>
  \<open>df[name] = values\<close> on a frame with unique labels replaces the column in its place,
  or adds it after the last column when the label is new.
\<close>

fun setitem :: "table \<Rightarrow> string \<Rightarrow> column \<Rightarrow> table" where
  "setitem [] name v = [(name, v)]"
| "setitem (p # df) name v =
     (if fst p = name then (name, v) # df else p # setitem df name v)"

text \<open>
  \<open>compose_df\<close>: \<open>data = {column_name: series for column_name, series in
  zip(column_names, args)}; return pd.DataFrame(data)\<close>. The dictionary keeps the first
  position of a repeated key and its last value; the names of the series play no role.
\<close>

definition compose_df :: "series list \<Rightarrow> string list \<Rightarrow> table" where
  "compose_df args column_names =
     foldl (\<lambda>data (column_name, series). setitem data column_name (snd series))
       [] (zip column_names args)"

text \<open>
  \<open>process\<close> of \<open>single_responsibility_1.py\<close>, from the loaded frame to the frame handed
  to \<open>save_df\<close>. The three columns are read from the loaded frame itself. What pandas does
  with a frame whose labels repeat (a two-dimensional selection, then library code that
  differs between versions) is not modelled: it is the parameter \<open>D\<close>.
\<close>

definition processed_df :: "(table \<Rightarrow> error + table) \<Rightarrow> table \<Rightarrow> error + table" where
  "processed_df D df =
     (if \<not> distinct (map fst df) then D df
      else case map_of df ''feature_a'' of None \<Rightarrow> Inl (KeyError ''feature_a'')
      | Some a \<Rightarrow>
        (case normalize_feature (''feature_a'', a) of Inl e \<Rightarrow> Inl e
         | Inr normalized_feature \<Rightarrow>
           (case map_of df ''feature_b'' of None \<Rightarrow> Inl (KeyError ''feature_b'')
            | Some b \<Rightarrow>
              (case encode_feature (''feature_b'', b) of Inl e \<Rightarrow> Inl e
               | Inr encoded_feature \<Rightarrow>
                 (case map_of df ''feature_c'' of None \<Rightarrow> Inl (KeyError ''feature_c'')
                  | Some c \<Rightarrow>
                    Inr (compose_df
                      [normalized_feature, encoded_feature,
                       fill_feature (''feature_c'', c) (Num (- 1))]
                      (map fst df)))))))"

text \<open>
  The file system is a state \<open>'fs\<close>. Reading a parquet file gives a table or raises;
  writing gives the new state and possibly an exception. Both are parameters.
\<close>

type_synonym 'fs reader = "string \<Rightarrow> 'fs \<Rightarrow> error + table"
type_synonym 'fs writer = "table \<Rightarrow> string \<Rightarrow> 'fs \<Rightarrow> 'fs \<times> error option"

definition process_sr1 ::
  "'fs reader \<Rightarrow> 'fs writer \<Rightarrow> (table \<Rightarrow> error + table) \<Rightarrow> string \<Rightarrow> string \<Rightarrow> 'fs
     \<Rightarrow> 'fs \<times> error option" where
  "process_sr1 load_data save_df D path output_path fs =
     (case load_data path fs of Inl e \<Rightarrow> (fs, Some e)
      | Inr df \<Rightarrow>
        (case processed_df D df of Inl e \<Rightarrow> (fs, Some e)
         | Inr out \<Rightarrow> save_df out output_path fs))"

section \<open>The processors and the pipeline of \<open>code_with_solid.py\<close>\<close>

text \<open>
  Each processor reads one fixed column of the frame it is given and returns a series.
  \<open>Standardizer\<close> keeps the label \<open>feature_a\<close>, \<open>Encoder\<close> names its result
  \<open>feature_b_encoded\<close>, \<open>NanFiller\<close> keeps \<open>feature_c\<close> and fills with \<open>-1\<close>. The result
  is given as the list of labelled columns that \<open>pd.concat\<close> will add: one column for a
  series. On a frame in which the label read is repeated, \<open>fillna\<close> fills every selected
  column and keeps the labels, \<open>LabelEncoder\<close> rejects the two-dimensional input with
  \<open>ValueError\<close>, and the arithmetic of \<open>Standardizer\<close> depends on the version of pandas:
  it is the parameter \<open>F\<close>, from the selected columns to the resulting ones.
\<close>

datatype processor = Standardizer | Encoder | NanFiller

fun process_data ::
  "(column list \<Rightarrow> error + column list) \<Rightarrow> processor \<Rightarrow> table \<Rightarrow> error + table" where
  "process_data F Standardizer df =
     (case select df ''feature_a'' of
        [] \<Rightarrow> Inl (KeyError ''feature_a'')
      | [s] \<Rightarrow> (case standardize s of Inl e \<Rightarrow> Inl e
                | Inr standardized_feature \<Rightarrow> Inr [(''feature_a'', standardized_feature)])
      | ss \<Rightarrow> (case F ss of Inl e \<Rightarrow> Inl e
               | Inr vs \<Rightarrow> Inr (map (Pair ''feature_a'') vs)))"
| "process_data F Encoder df =
     (case select df ''feature_b'' of
        [] \<Rightarrow> Inl (KeyError ''feature_b'')
      | [s] \<Rightarrow> (case fit_transform s of Inl e \<Rightarrow> Inl e
                | Inr (classes, encoded_feature) \<Rightarrow>
                    Inr [(''feature_b_encoded'', int_column encoded_feature)])
      | ss \<Rightarrow> Inl ValueError)"
| "process_data F NanFiller df =
     (case select df ''feature_c'' of
        [] \<Rightarrow> Inl (KeyError ''feature_c'')
      | ss \<Rightarrow> Inr (map (\<lambda>s. (''feature_c'', fillna s (Num (- 1)))) ss))"

text \<open>
  The loop of \<open>DataPipeline.process\<close>:
  \<open>for processor in self.processors: df = pd.concat([df, processor.process_data(df)], axis=1)\<close>.
  The processor is given the frame as it stands, with the columns added so far.
\<close>

fun run_processors ::
  "(column list \<Rightarrow> error + column list) \<Rightarrow> processor list \<Rightarrow> table \<Rightarrow> error + table" where
  "run_processors F [] df = Inr df"
| "run_processors F (processor # processors) df =
     (case process_data F processor df of Inl e \<Rightarrow> Inl e
      | Inr new \<Rightarrow> run_processors F processors (df @ new))"

definition DataPipeline_process ::
  "'fs reader \<Rightarrow> (column list \<Rightarrow> error + column list) \<Rightarrow> processor list
     \<Rightarrow> string \<Rightarrow> 'fs \<Rightarrow> error + table" where
  "DataPipeline_process read_parquet F processors path fs =
     (case read_parquet path fs of Inl e \<Rightarrow> Inl e
      | Inr df \<Rightarrow> run_processors F processors df)"

section \<open>The processing steps that write into the frame\<close>

text \<open>
  \<open>open_close.py\<close>, \<open>liskov_substitution.py\<close>, \<open>single_responsibility.py\<close>,
  \<open>interface_segregation.py\<close> and \<open>dependency_aversion.py\<close> share three step classes,
  the same but for the name of the method (\<open>process\<close>, \<open>apply\<close>, ...) and logging. A step
  assigns into the frame it is given and returns that same frame object, so the table
  returned below is also the state of the caller's frame after the call. Frames with a
  repeated label are left to the parameter \<open>D\<close>, as above.
\<close>

datatype step =
    NormalizeFeature string
  | EncodeCategoricalFeature string string
  | FillNaNFeature string cell

fun "apply" :: "(step \<Rightarrow> table \<Rightarrow> error + table) \<Rightarrow> step \<Rightarrow> table \<Rightarrow> error + table" where
  "apply D (NormalizeFeature feature_name) df =
     (if \<not> distinct (map fst df) then D (NormalizeFeature feature_name) df
      else case map_of df feature_name of None \<Rightarrow> Inl (KeyError feature_name)
      | Some s \<Rightarrow> (case standardize s of Inl e \<Rightarrow> Inl e
                   | Inr v \<Rightarrow> Inr (setitem df feature_name v)))"
| "apply D (EncodeCategoricalFeature feature_name encoded_feature_name) df =
     (if \<not> distinct (map fst df)
      then D (EncodeCategoricalFeature feature_name encoded_feature_name) df
      else case map_of df feature_name of None \<Rightarrow> Inl (KeyError feature_name)
      | Some s \<Rightarrow> (case fit_transform s of Inl e \<Rightarrow> Inl e
                   | Inr (classes, codes) \<Rightarrow>
                       Inr (setitem df encoded_feature_name (int_column codes))))"
| "apply D (FillNaNFeature feature_name fill_value) df =
     (if \<not> distinct (map fst df) then D (FillNaNFeature feature_name fill_value) df
      else case map_of df feature_name of None \<Rightarrow> Inl (KeyError feature_name)
      | Some s \<Rightarrow> Inr (setitem df feature_name (fillna s fill_value)))"

text \<open>The loop \<open>for step in steps: df = step.process(df)\<close>.\<close>

fun run_steps ::
  "(step \<Rightarrow> table \<Rightarrow> error + table) \<Rightarrow> step list \<Rightarrow> table \<Rightarrow> error + table" where
  "run_steps D [] df = Inr df"
| "run_steps D (s # steps) df =
     (case apply D s df of Inl e \<Rightarrow> Inl e | Inr df' \<Rightarrow> run_steps D steps df')"

text \<open>
  \<open>process\<close> of \<open>open_close.py\<close>: read, run the steps, write, return the frame. An
  exception leaves the function at once, so that nothing after it runs.
\<close>

definition process_open_close ::
  "'fs reader \<Rightarrow> 'fs writer \<Rightarrow> (step \<Rightarrow> table \<Rightarrow> error + table) \<Rightarrow> string \<Rightarrow> string
     \<Rightarrow> step list \<Rightarrow> 'fs \<Rightarrow> (error + table) \<times> 'fs" where
  "process_open_close read_parquet to_parquet D path output_path steps fs =
     (case read_parquet path fs of Inl e \<Rightarrow> (Inl e, fs)
      | Inr df \<Rightarrow>
        (case run_steps D steps df of Inl e \<Rightarrow> (Inl e, fs)
         | Inr df' \<Rightarrow>
           (case to_parquet df' output_path fs of
              (fs', Some e) \<Rightarrow> (Inl e, fs')
            | (fs', None) \<Rightarrow> (Inr df', fs'))))"


section \<open>Notions used in the statements\<close>

text \<open>A numeric entry: a finite number or a missing value.\<close>

fun is_numeric :: "cell \<Rightarrow> bool" where
  "is_numeric (Num x) = True"
| "is_numeric NaN = True"
| "is_numeric c = False"

text \<open>The label a processor reads and the label of the series it returns.\<close>

fun source_label :: "processor \<Rightarrow> string" where
  "source_label Standardizer = ''feature_a''"
| "source_label Encoder = ''feature_b''"
| "source_label NanFiller = ''feature_c''"

fun output_label :: "processor \<Rightarrow> string" where
  "output_label Standardizer = ''feature_a''"
| "output_label Encoder = ''feature_b_encoded''"
| "output_label NanFiller = ''feature_c''"

text \<open>No processor of the sequence reads a label that an earlier one has returned.\<close>

fun reads_fresh :: "processor list \<Rightarrow> bool" where
  "reads_fresh [] = True"
| "reads_fresh (p # ps) = (output_label p \<notin> set (map source_label ps) \<and> reads_fresh ps)"

text \<open>
  The run as the specification words it: each transform, in order, is invoked against
  the original loaded table and its output is appended to the result.
\<close>

fun spec_run ::
  "(column list \<Rightarrow> error + column list) \<Rightarrow> processor list \<Rightarrow> table \<Rightarrow> table
     \<Rightarrow> error + table" where
  "spec_run F [] original result = Inr result"
| "spec_run F (p # ps) original result =
     (case process_data F p original of Inl e \<Rightarrow> Inl e
      | Inr new \<Rightarrow> spec_run F ps original (result @ new))"

text \<open>The column a step reads (\<open>feature_name\<close>) and the column it assigns.\<close>

fun source :: "step \<Rightarrow> string" where
  "source (NormalizeFeature feature_name) = feature_name"
| "source (EncodeCategoricalFeature feature_name encoded_feature_name) = feature_name"
| "source (FillNaNFeature feature_name fill_value) = feature_name"

fun written_label :: "step \<Rightarrow> string" where
  "written_label (NormalizeFeature feature_name) = feature_name"
| "written_label (EncodeCategoricalFeature feature_name encoded_feature_name) =
     encoded_feature_name"
| "written_label (FillNaNFeature feature_name fill_value) = feature_name"

text \<open>A small file system for the examples: the files by path, the latest first.\<close>

type_synonym files = "(string \<times> table) list"

definition read_files :: "files reader" where
  "read_files path fs =
     (case map_of fs path of None \<Rightarrow> Inl FileNotFoundError | Some df \<Rightarrow> Inr df)"

definition write_files :: "files writer" where
  "write_files df path fs = ((path, df) # fs, None)"

text \<open>
  Instances of the parameters for the examples: each selected column standardized by
  itself, and \<open>ValueError\<close> on a frame with a repeated label.
\<close>

definition frame_each :: "column list \<Rightarrow> error + column list" where
  "frame_each ss = map_err standardize ss"

definition repeated_raise :: "table \<Rightarrow> error + table" where
  "repeated_raise df = Inl ValueError"

definition repeated_raise_step :: "step \<Rightarrow> table \<Rightarrow> error + table" where
  "repeated_raise_step s df = Inl ValueError"

text \<open>
  The three lines of the standardization with the two reductions as parameters. numpy
  computes the deviation and the mean in floating point; what is proved of this function
  holds whatever values the two reductions return.
\<close>

definition standardize_by ::
  "(column \<Rightarrow> error + cell) \<Rightarrow> (column \<Rightarrow> error + cell) \<Rightarrow> column \<Rightarrow> error + column" where
  "standardize_by std_of mean_of s =
     (case std_of s of Inl e \<Rightarrow> Inl e
      | Inr std \<Rightarrow>
        (case mean_of s of Inl e \<Rightarrow> Inl e
         | Inr mu \<Rightarrow>
           map_err (\<lambda>x. case cell_sub x mu of Inl e \<Rightarrow> Inl e
                         | Inr d \<Rightarrow> cell_div d std) s))"

definition normalize_feature_by ::
  "(column \<Rightarrow> error + cell) \<Rightarrow> (column \<Rightarrow> error + cell) \<Rightarrow> series \<Rightarrow> error + series" where
  "normalize_feature_by std_of mean_of feature =
     (case standardize_by std_of mean_of (snd feature) of Inl e \<Rightarrow> Inl e
      | Inr v \<Rightarrow> Inr (fst feature, v))"

text \<open>The integer codes held by a column of whole numbers.\<close>

definition column_codes :: "column \<Rightarrow> nat list" where
  "column_codes col = map (\<lambda>c. case c of Num x \<Rightarrow> nat \<lfloor>x\<rfloor> | _ \<Rightarrow> 0) col"


section \<open>Standardization\<close>

subsection \<open>Sums of squares, mean and deviation\<close>

lemma sum_sq_nonneg: "0 \<le> sum_list (map (\<lambda>x. (x - m)\<^sup>2) (xs::real list))"
  by (induction xs) simp_all

lemma sum_sq_zero:
  "sum_list (map (\<lambda>x. (x - m)\<^sup>2) xs) = 0 \<Longrightarrow> (x::real) \<in> set xs \<Longrightarrow> x = m"
proof (induction xs)
  case Nil
  then show ?case by simp
next
  case (Cons a xs)
  have "(a - m)\<^sup>2 + sum_list (map (\<lambda>x. (x - m)\<^sup>2) xs) = 0"
    using Cons.prems(1) by simp
  then have "(a - m)\<^sup>2 = 0 \<and> sum_list (map (\<lambda>x. (x - m)\<^sup>2) xs) = 0"
    using sum_sq_nonneg[of m xs] by (simp add: add_nonneg_eq_0_iff)
  then show ?case using Cons by auto
qed

lemma pstd_zero_iff:
  assumes "xs \<noteq> []" "pstd xs = 0" "x \<in> set xs"
  shows "x = mean xs"
proof -
  have "sum_list (map (\<lambda>x. (x - mean xs)\<^sup>2) xs) = 0"
    using assms(1,2) by (simp add: pstd_def)
  then show ?thesis using assms(3) by (rule sum_sq_zero)
qed

lemma sum_list_div: "sum_list (map (\<lambda>x. f x / s) xs) = sum_list (map f xs) / (s::real)"
  by (induction xs) (simp_all add: add_divide_distrib)

lemma sum_list_shift: "sum_list (map (\<lambda>x. x - m) xs) = sum_list xs - real (length xs) * m"
  by (induction xs) (simp_all add: algebra_simps)

lemma mean_shift_scale:
  assumes "xs \<noteq> []"
  shows "mean (map (\<lambda>x. (x - mean xs) / s) xs) = 0"
proof -
  have "sum_list (map (\<lambda>x. (x - mean xs) / s) xs) = sum_list (map (\<lambda>x. x - mean xs) xs) / s"
    by (rule sum_list_div)
  also have "sum_list (map (\<lambda>x. x - mean xs) xs) = sum_list xs - real (length xs) * mean xs"
    by (rule sum_list_shift)
  also have "\<dots> = 0" using assms by (simp add: mean_def)
  finally show ?thesis by (simp add: mean_def)
qed

lemma sum_sq_scale:
  "sum_list (map (\<lambda>y. (y - 0)\<^sup>2) (map (\<lambda>x. (x - m) / s) xs))
        = sum_list (map (\<lambda>x. (x - m)\<^sup>2) xs) / (s::real)\<^sup>2"
  by (induction xs) (simp_all add: add_divide_distrib power_divide)

lemma pstd_shift_scale:
  assumes "xs \<noteq> []" "pstd xs \<noteq> 0"
  shows "pstd (map (\<lambda>x. (x - mean xs) / pstd xs) xs) = 1"
proof -
  let ?s = "pstd xs" and ?v = "sum_list (map (\<lambda>x. (x - mean xs)\<^sup>2) xs) / real (length xs)"
  have v: "0 \<le> ?v" using sum_sq_nonneg[of "mean xs" xs] by simp
  have s2: "?s\<^sup>2 = ?v" using v by (simp add: pstd_def)
  have "pstd (map (\<lambda>x. (x - mean xs) / ?s) xs) = sqrt (?v / ?s\<^sup>2)"
    unfolding pstd_def[of "map _ _"] mean_shift_scale[OF assms(1)] sum_sq_scale by simp
  also have "\<dots> = sqrt (?s\<^sup>2 / ?s\<^sup>2)" by (simp only: s2)
  also have "\<dots> = 1" using assms(2) by simp
  finally show ?thesis .
qed



lemma map_err_total: "(\<And>x. x \<in> set xs \<Longrightarrow> f x = Inr (g x)) \<Longrightarrow> map_err f xs = Inr (map g xs)"
  by (induction xs) simp_all

lemma numeric_no_Str: "list_all is_numeric s \<Longrightarrow> \<not> list_ex is_Str s"
  by (induction s rule: numeric_values.induct) simp_all

lemma numeric_no_Inf: "list_all is_numeric s \<Longrightarrow> \<not> list_ex is_Inf s"
  by (induction s rule: numeric_values.induct) simp_all

lemma numeric_no_member: "list_all is_numeric s \<Longrightarrow> PosInf \<notin> set s \<and> NegInf \<notin> set s"
  by (induction s rule: numeric_values.induct) simp_all

lemma numeric_present: "list_all is_numeric s \<Longrightarrow> (filter (\<lambda>c. c \<noteq> NaN) s = []) = (numeric_values s = [])"
  by (induction s rule: numeric_values.induct) simp_all

lemma numeric_values_mem: "Num x \<in> set s \<Longrightarrow> x \<in> set (numeric_values s)"
  by (induction s rule: numeric_values.induct) auto

lemma numeric_cases: "list_all is_numeric s \<Longrightarrow> c \<in> set s \<Longrightarrow> c = NaN \<or> (\<exists>x. c = Num x)"
  by (cases c) (auto simp: list_all_iff)

lemma standardize_numeric:
  assumes num: "list_all is_numeric s"
  shows "standardize s = Inr (map (\<lambda>c. case c of
            Num x \<Rightarrow> if pstd (numeric_values s) = 0 then NaN
                     else Num ((x - mean (numeric_values s)) / pstd (numeric_values s))
          | _ \<Rightarrow> NaN) s)"
proof (cases "numeric_values s = []")
  case True
  have allNaN: "c = NaN" if "c \<in> set s" for c
    using numeric_cases[OF num that] numeric_values_mem[of _ s] True that by auto
  have std: "np_std s = Inr NaN" and mu: "np_mean s = Inr NaN"
    using num True by (simp_all add: np_std_def np_mean_def numeric_no_Str numeric_present)
  show ?thesis
    unfolding standardize_def std mu
    by (simp, rule map_err_total) (auto dest: allNaN)
next
  case False
  let ?xs = "numeric_values s"
  have std: "np_std s = Inr (Num (pstd ?xs))" and mu: "np_mean s = Inr (Num (mean ?xs))"
    using num False
    by (simp_all add: np_std_def np_mean_def numeric_no_Str numeric_present numeric_no_Inf
        numeric_no_member)
  have row: "(case cell_sub c (Num (mean ?xs)) of Inl e \<Rightarrow> Inl e | Inr d \<Rightarrow> cell_div d (Num (pstd ?xs)))
      = Inr (case c of Num x \<Rightarrow> if pstd ?xs = 0 then NaN else Num ((x - mean ?xs) / pstd ?xs) | _ \<Rightarrow> NaN)"
    if "c \<in> set s" for c
  proof -
    from numeric_cases[OF num that] show ?thesis
    proof
      assume "c = NaN" then show ?thesis by simp
    next
      assume "\<exists>x. c = Num x"
      then obtain x where c: "c = Num x" ..
      then have "x \<in> set ?xs" using that numeric_values_mem by simp
      then have "pstd ?xs = 0 \<Longrightarrow> x = mean ?xs" using pstd_zero_iff[OF False] by simp
      then show ?thesis using c by auto
    qed
  qed
  show ?thesis
    unfolding standardize_def std mu
    by (simp, rule map_err_total) (rule row)
qed


lemma numeric_values_map:
  "numeric_values (map (\<lambda>c. case c of Num x \<Rightarrow> Num (f x) | _ \<Rightarrow> NaN) s) = map f (numeric_values s)"
  by (induction s rule: numeric_values.induct) simp_all

lemma is_numeric_map:
  "list_all is_numeric (map (\<lambda>c. case c of Num x \<Rightarrow> g x | _ \<Rightarrow> NaN) s) = list_all (\<lambda>c. \<forall>x. c = Num x \<longrightarrow> is_numeric (g x)) s"
  by (induction s rule: numeric_values.induct) simp_all

lemma np_mean_numeric:
  "list_all is_numeric s \<Longrightarrow> numeric_values s \<noteq> [] \<Longrightarrow> np_mean s = Inr (Num (mean (numeric_values s)))"
  by (simp add: np_mean_def numeric_no_Str numeric_present numeric_no_member)

lemma np_std_numeric:
  "list_all is_numeric s \<Longrightarrow> numeric_values s \<noteq> [] \<Longrightarrow> np_std s = Inr (Num (pstd (numeric_values s)))"
  by (simp add: np_std_def numeric_no_Str numeric_present numeric_no_Inf)

lemma pstd_Nil: "pstd [] = 0"
  by (simp add: pstd_def)

lemma zscore_stats:
  assumes num: "list_all is_numeric s" and nz: "pstd (numeric_values s) \<noteq> 0"
  defines "out \<equiv> map (\<lambda>c. case c of
      Num x \<Rightarrow> Num ((x - mean (numeric_values s)) / pstd (numeric_values s)) | _ \<Rightarrow> NaN) s"
  shows "np_mean out = Inr (Num 0)" and "np_std out = Inr (Num 1)"
proof -
  let ?xs = "numeric_values s"
  have ne: "?xs \<noteq> []" using nz pstd_Nil by auto
  have vals: "numeric_values out = map (\<lambda>x. (x - mean ?xs) / pstd ?xs) ?xs"
    unfolding out_def by (rule numeric_values_map)
  have onum: "list_all is_numeric out"
    unfolding out_def is_numeric_map by (simp add: list_all_iff)
  have one: "numeric_values out \<noteq> []" using ne vals by simp
  show "np_mean out = Inr (Num 0)"
    using np_mean_numeric[OF onum one] vals mean_shift_scale[OF ne] by simp
  show "np_std out = Inr (Num 1)"
    using np_std_numeric[OF onum one] vals pstd_shift_scale[OF ne nz] by simp
qed

lemma process_data_Standardizer_single:
  "select df ''feature_a'' = [s] \<Longrightarrow>
     process_data F Standardizer df =
       (case normalize_feature (''feature_a'', s) of Inl e \<Rightarrow> Inl e | Inr r \<Rightarrow> Inr [r])"
  by (simp add: normalize_feature_def split: sum.splits)


text \<open>
  \<^bold>\<open>C4\<close>. For every numeric column (finite numbers and missing values) with mean \<open>\<mu>\<close> and
  population standard deviation \<open>\<sigma>\<close> of its numbers, \<open>normalize_feature\<close> raises nothing and
  returns the column whose row \<open>i\<close> is \<open>(x\<^sub>i - \<mu>) / \<sigma>\<close> (NaN where the division is \<open>0 / 0\<close>,
  and where the entry is missing). When \<open>\<sigma> \<noteq> 0\<close> the result has mean 0 and standard
  deviation 1, exactly. \<open>Standardizer.process_data\<close> computes the same series from the
  column \<open>feature_a\<close> of its frame.
\<close>

theorem normalize_feature_zscore:
  assumes "list_all is_numeric (snd feature)"
  shows "normalize_feature feature =
           Inr (fst feature, map (\<lambda>c. case c of
                  Num x \<Rightarrow> if pstd (numeric_values (snd feature)) = 0 then NaN
                           else Num ((x - mean (numeric_values (snd feature)))
                                       / pstd (numeric_values (snd feature)))
                | _ \<Rightarrow> NaN) (snd feature))
    \<and> (pstd (numeric_values (snd feature)) \<noteq> 0 \<longrightarrow>
         (case normalize_feature feature of Inl e \<Rightarrow> False
          | Inr out \<Rightarrow> np_mean (snd out) = Inr (Num 0) \<and> np_std (snd out) = Inr (Num 1)))
    \<and> (select df ''feature_a'' = [snd feature] \<longrightarrow>
         process_data F Standardizer df =
           (case normalize_feature (''feature_a'', snd feature) of
              Inl e \<Rightarrow> Inl e | Inr r \<Rightarrow> Inr [r]))"
proof (intro conjI impI)
  let ?xs = "numeric_values (snd feature)"
  show eq: "normalize_feature feature =
           Inr (fst feature, map (\<lambda>c. case c of
                  Num x \<Rightarrow> if pstd ?xs = 0 then NaN else Num ((x - mean ?xs) / pstd ?xs)
                | _ \<Rightarrow> NaN) (snd feature))"
    by (simp add: normalize_feature_def standardize_numeric[OF assms])
  assume nz: "pstd ?xs \<noteq> 0"
  have "normalize_feature feature =
      Inr (fst feature, map (\<lambda>c. case c of Num x \<Rightarrow> Num ((x - mean ?xs) / pstd ?xs) | _ \<Rightarrow> NaN)
        (snd feature))"
    unfolding eq using nz by simp
  then show "case normalize_feature feature of Inl e \<Rightarrow> False
          | Inr out \<Rightarrow> np_mean (snd out) = Inr (Num 0) \<and> np_std (snd out) = Inr (Num 1)"
    using zscore_stats[OF assms nz] by simp
next
  assume "select df ''feature_a'' = [snd feature]"
  then show "process_data F Standardizer df =
           (case normalize_feature (''feature_a'', snd feature) of
              Inl e \<Rightarrow> Inl e | Inr r \<Rightarrow> Inr [r])"
    by (rule process_data_Standardizer_single)
qed


theorem normalize_feature_zscore_witness:
  "list_all is_numeric [Num 1, NaN, Num 3]
   \<and> pstd (numeric_values [Num 1, NaN, Num 3]) \<noteq> 0
   \<and> select [(''feature_a'', [Num 1, NaN, Num 3])] ''feature_a'' = [[Num 1, NaN, Num 3]]
   \<and> normalize_feature (''feature_a'', [Num 1, NaN, Num 3]) = Inr (''feature_a'', [Num (- 1), NaN, Num 1])
   \<and> np_mean [Num (- 1), NaN, Num 1] = Inr (Num 0)
   \<and> np_std [Num (- 1), NaN, Num 1] = Inr (Num 1)
   \<and> process_data frame_each Standardizer [(''feature_a'', [Num 1, NaN, Num 3])]
        = Inr [(''feature_a'', [Num (- 1), NaN, Num 1])]"
  using normalize_feature_zscore[of "(''feature_a'', [Num 1, NaN, Num 3])"
      "[(''feature_a'', [Num 1, NaN, Num 3])]" frame_each]
  by (auto simp add: pstd_def mean_def select_def)

text \<open>
  \<^bold>\<open>C6\<close>, as the code has it. The column \<open>[1, 1]\<close> has deviation 0; the result is neither an
  exception nor a column of zeros: both entries are NaN.
\<close>

theorem normalize_feature_constant_counterexample:
  "pstd (numeric_values [Num 1, Num 1]) = 0
   \<and> normalize_feature (''feature_a'', [Num 1, Num 1]) = Inr (''feature_a'', [NaN, NaN])"
  by (simp add: normalize_feature_def standardize_def np_std_def np_mean_def pstd_def mean_def)


lemma standardize_by_np: "standardize s = standardize_by np_std np_mean s"
  by (simp add: standardize_def standardize_by_def)

lemma normalize_feature_by_np: "normalize_feature feature = normalize_feature_by np_std np_mean feature"
  by (simp add: normalize_feature_def normalize_feature_by_def standardize_by_np)

lemma standardize_by_zero:
  assumes num: "list_all is_numeric s"
    and std: "std_of s = Inr (Num 0)" and mu: "mean_of s = Inr (Num m)"
  shows "standardize_by std_of mean_of s =
           Inr (map (\<lambda>c. case c of
                  Num x \<Rightarrow> if x = m then NaN else if m < x then PosInf else NegInf
                | _ \<Rightarrow> NaN) s)"
proof -
  have row: "(case cell_sub c (Num m) of Inl e \<Rightarrow> Inl e | Inr d \<Rightarrow> cell_div d (Num 0))
      = Inr (case c of Num x \<Rightarrow> if x = m then NaN else if m < x then PosInf else NegInf
             | _ \<Rightarrow> NaN)"
    if "c \<in> set s" for c
    using numeric_cases[OF num that] by auto
  show ?thesis
    unfolding standardize_by_def std mu
    by (simp, rule map_err_total) (rule row)
qed

text \<open>
  \<^bold>\<open>C6\<close>, amended. For every numeric column for which the deviation is computed as 0 and
  the mean as a finite number \<open>m\<close>, whatever the way the two are computed, the
  standardization raises nothing and returns no zero: the division is carried out as it
  stands, so that a missing entry and an entry equal to \<open>m\<close> give NaN, an entry above \<open>m\<close>
  gives the positive infinity and an entry below \<open>m\<close> the negative one. This is the one
  policy for every such column. \<open>normalize_feature\<close> and \<open>Standardizer.process_data\<close> are
  this computation with \<open>np.std\<close> and \<open>np.mean\<close>.
\<close>

theorem normalize_feature_constant:
  assumes "list_all is_numeric (snd feature)"
    and "std_of (snd feature) = Inr (Num 0)" and "mean_of (snd feature) = Inr (Num m)"
  shows "normalize_feature_by std_of mean_of feature =
           Inr (fst feature, map (\<lambda>c. case c of
                  Num x \<Rightarrow> if x = m then NaN else if m < x then PosInf else NegInf
                | _ \<Rightarrow> NaN) (snd feature))
    \<and> (case normalize_feature_by std_of mean_of feature of Inl e \<Rightarrow> False
        | Inr out \<Rightarrow> list_all (\<lambda>c. c = NaN \<or> is_Inf c) (snd out))
    \<and> normalize_feature feature = normalize_feature_by np_std np_mean feature
    \<and> (select df ''feature_a'' = [snd feature] \<longrightarrow>
         process_data F Standardizer df =
           (case normalize_feature_by np_std np_mean (''feature_a'', snd feature) of
              Inl e \<Rightarrow> Inl e | Inr r \<Rightarrow> Inr [r]))"
proof -
  have eq: "normalize_feature_by std_of mean_of feature =
           Inr (fst feature, map (\<lambda>c. case c of
                  Num x \<Rightarrow> if x = m then NaN else if m < x then PosInf else NegInf
                | _ \<Rightarrow> NaN) (snd feature))"
    by (simp add: normalize_feature_by_def
        standardize_by_zero[where std_of = std_of and mean_of = mean_of, OF assms])
  have "case normalize_feature_by std_of mean_of feature of Inl e \<Rightarrow> False
        | Inr out \<Rightarrow> list_all (\<lambda>c. c = NaN \<or> is_Inf c) (snd out)"
    unfolding eq by (simp add: list_all_iff split: cell.splits)
  moreover have "select df ''feature_a'' = [snd feature] \<Longrightarrow>
         process_data F Standardizer df =
           (case normalize_feature_by np_std np_mean (''feature_a'', snd feature) of
              Inl e \<Rightarrow> Inl e | Inr r \<Rightarrow> Inr [r])"
    using process_data_Standardizer_single[of df "snd feature" F]
    by (simp add: normalize_feature_by_np)
  ultimately show ?thesis using eq normalize_feature_by_np by blast
qed

theorem normalize_feature_constant_witness:
  "list_all is_numeric (snd (''feature_a'', [Num 2, NaN, Num 2]))
   \<and> np_std (snd (''feature_a'', [Num 2, NaN, Num 2])) = Inr (Num 0)
   \<and> np_mean (snd (''feature_a'', [Num 2, NaN, Num 2])) = Inr (Num 2)
   \<and> select [(''feature_a'', [Num 2, NaN, Num 2])] ''feature_a'' = [[Num 2, NaN, Num 2]]
   \<and> normalize_feature (''feature_a'', [Num 2, NaN, Num 2]) = Inr (''feature_a'', [NaN, NaN, NaN])
   \<and> process_data frame_each Standardizer [(''feature_a'', [Num 2, NaN, Num 2])]
        = Inr [(''feature_a'', [NaN, NaN, NaN])]"
proof -
  have st: "np_std (snd (''feature_a'', [Num 2, NaN, Num 2])) = Inr (Num 0)"
    by (simp add: np_std_def pstd_def mean_def)
  have mu: "np_mean (snd (''feature_a'', [Num 2, NaN, Num 2])) = Inr (Num 2)"
    by (simp add: np_mean_def mean_def)
  have nu: "list_all is_numeric (snd (''feature_a'', [Num 2, NaN, Num 2]))" by simp
  have se: "select [(''feature_a'', [Num 2, NaN, Num 2])] ''feature_a'' = [[Num 2, NaN, Num 2]]"
    by (simp add: select_def)
  from normalize_feature_constant[where std_of = np_std and mean_of = np_mean
      and df = "[(''feature_a'', [Num 2, NaN, Num 2])]" and F = frame_each, OF nu st mu]
    st mu nu se
  show ?thesis by simp
qed

section \<open>Filling missing values\<close>

text \<open>
  \<^bold>\<open>C5\<close>. \<open>fill_feature\<close> with the value \<open>v\<close> returns a series of the same name and length in
  which each missing entry is \<open>v\<close> and each other entry is the entry of the source; when \<open>v\<close>
  is not missing, no entry of the result is missing. \<open>NanFiller.process_data\<close> is this
  function at the column \<open>feature_c\<close> with the value \<open>-1\<close>.
\<close>

theorem fill_feature_replaces_missing:
  "length (snd (fill_feature feature v)) = length (snd feature)
   \<and> fst (fill_feature feature v) = fst feature
   \<and> (\<forall>i < length (snd feature).
        snd (fill_feature feature v) ! i = (if snd feature ! i = NaN then v else snd feature ! i))
   \<and> (v \<noteq> NaN \<longrightarrow> NaN \<notin> set (snd (fill_feature feature v)))
   \<and> (select df ''feature_c'' = [snd feature] \<longrightarrow>
        process_data F NanFiller df = Inr [fill_feature (''feature_c'', snd feature) (Num (- 1))])"
  by (auto simp add: fill_feature_def fillna_def)


theorem fill_feature_replaces_missing_witness:
  "(1::nat) < length (snd (''feature_c'', [Num 5, NaN, Num 7, NaN]))
   \<and> Num (- 1) \<noteq> NaN
   \<and> select [(''feature_c'', [Num 5, NaN, Num 7, NaN])] ''feature_c'' = [[Num 5, NaN, Num 7, NaN]]
   \<and> length (snd (fill_feature (''feature_c'', [Num 5, NaN, Num 7, NaN]) (Num (- 1)))) = 4
   \<and> snd (fill_feature (''feature_c'', [Num 5, NaN, Num 7, NaN]) (Num (- 1))) ! 1 = Num (- 1)
   \<and> NaN \<notin> set (snd (fill_feature (''feature_c'', [Num 5, NaN, Num 7, NaN]) (Num (- 1))))
   \<and> process_data frame_each NanFiller [(''feature_c'', [Num 5, NaN, Num 7, NaN])]
       = Inr [(''feature_c'', [Num 5, Num (- 1), Num 7, Num (- 1)])]"
  using fill_feature_replaces_missing[of "(''feature_c'', [Num 5, NaN, Num 7, NaN])" "Num (- 1)"
      "[(''feature_c'', [Num 5, NaN, Num 7, NaN])]" frame_each]
  by (auto simp add: select_def fill_feature_def fillna_def)


section \<open>Label encoding\<close>

lemma np_unique_props: "sorted (np_unique xs) \<and> distinct (np_unique xs) \<and> set (np_unique xs) = set xs"
  by (simp add: np_unique_def)

lemma np_unique_sorted_list: "np_unique xs = sorted_list_of_set (set xs)"
  by (simp add: np_unique_def sorted_list_of_set_sort_remdups)

lemma index_of_nth: "x \<in> set xs \<Longrightarrow> index_of xs x < length xs \<and> xs ! index_of xs x = x"
  by (induction xs) auto

lemma index_of_inj: "x \<in> set xs \<Longrightarrow> y \<in> set xs \<Longrightarrow> index_of xs x = index_of xs y \<Longrightarrow> x = y"
  by (induction xs) (auto split: if_splits)

lemma index_of_map_inj: "inj f \<Longrightarrow> index_of (map f xs) (f x) = index_of xs x"
  by (induction xs) (auto dest: injD)

lemma index_of_sorted:
  "sorted xs \<Longrightarrow> distinct xs \<Longrightarrow> x \<in> set xs \<Longrightarrow> index_of xs x = card {y \<in> set xs. y < (x::'a::linorder)}"
proof (induction xs)
  case Nil
  then show ?case by simp
next
  case (Cons a xs)
  show ?case
  proof (cases "a = x")
    case True
    then have "{y \<in> set (a # xs). y < x} = {}" using Cons.prems by auto
    then show ?thesis using True by simp
  next
    case False
    then have x: "x \<in> set xs" and ax: "a < x" using Cons.prems by auto
    have "{y \<in> set (a # xs). y < x} = insert a {y \<in> set xs. y < x}" using ax by auto
    moreover have "a \<notin> {y \<in> set xs. y < x}" using Cons.prems by auto
    ultimately have "card {y \<in> set (a # xs). y < x} = Suc (card {y \<in> set xs. y < x})" by simp
    then show ?thesis using False Cons x by simp
  qed
qed

lemma str_values_map_Str: "str_values (map Str ss) = ss"
  by (induction ss) simp_all

lemma classes_of_strings: "classes_of (map Str ss) = Inr (map Str (np_unique ss))"
  by (auto simp add: classes_of_def str_values_map_Str list_all_iff)

lemma fit_transform_strings:
  "fit_transform (map Str ss) =
     Inr (map Str (sorted_list_of_set (set ss)), map (\<lambda>s. card {t \<in> set ss. t < s}) ss)"
proof -
  have "index_of (map Str (np_unique ss)) (Str s) = card {t \<in> set ss. t < s}" if "s \<in> set ss" for s
  proof -
    have "index_of (map Str (np_unique ss)) (Str s) = index_of (np_unique ss) s"
      by (rule index_of_map_inj) (simp add: inj_def)
    also have "\<dots> = card {t \<in> set (np_unique ss). t < s}"
      using that np_unique_props[of ss] by (intro index_of_sorted) simp_all
    finally show ?thesis using np_unique_props[of ss] by simp
  qed
  then show ?thesis
    by (simp add: fit_transform_def classes_of_strings np_unique_sorted_list[symmetric] comp_def)
qed

lemma process_data_Encoder_single:
  "select df ''feature_b'' = [y] \<Longrightarrow>
     process_data F Encoder df =
       (case encode_feature (''feature_b'', y) of Inl e \<Rightarrow> Inl e
        | Inr r \<Rightarrow> Inr [(''feature_b_encoded'', snd r)])"
  by (simp add: encode_feature_def split: sum.splits prod.splits)

lemma column_codes_int_column: "column_codes (int_column codes) = codes"
  by (simp add: column_codes_def int_column_def comp_def)

lemma int_column_nth_eq:
  "i < length codes \<Longrightarrow> j < length codes \<Longrightarrow>
     (int_column codes ! i = int_column codes ! j) = (codes ! i = codes ! j)"
  by (simp add: int_column_def)

text \<open>
  \<^bold>\<open>C3\<close>. For every column of strings the encoder's classes are the distinct values in
  sorted order and the code of a row is the number of distinct values smaller than its own,
  a function of the column alone; this is the series returned by \<open>encode_feature\<close> and,
  under the label \<open>feature_b_encoded\<close>, by \<open>Encoder.process_data\<close> for every frame whose
  column \<open>feature_b\<close> it is. The column \<open>["x", "y", "x", "z"]\<close> is encoded as
  \<open>[0, 1, 0, 2]\<close>.
\<close>

theorem encode_feature_sorted_codes:
  "fit_transform (map Str ss) =
     Inr (map Str (sorted_list_of_set (set ss)), map (\<lambda>s. card {t \<in> set ss. t < s}) ss)
   \<and> encode_feature (name, map Str ss) =
       Inr (name, int_column (map (\<lambda>s. card {t \<in> set ss. t < s}) ss))
   \<and> (select df ''feature_b'' = [map Str ss] \<longrightarrow>
        process_data F Encoder df =
          Inr [(''feature_b_encoded'', int_column (map (\<lambda>s. card {t \<in> set ss. t < s}) ss))])
   \<and> encode_feature (''feature_b'', [Str ''x'', Str ''y'', Str ''x'', Str ''z''])
       = Inr (''feature_b'', [Num 0, Num 1, Num 0, Num 2])
   \<and> process_data F Encoder [(''feature_b'', [Str ''x'', Str ''y'', Str ''x'', Str ''z''])]
       = Inr [(''feature_b_encoded'', [Num 0, Num 1, Num 0, Num 2])]"
proof (intro conjI impI)
  show "fit_transform (map Str ss) =
     Inr (map Str (sorted_list_of_set (set ss)), map (\<lambda>s. card {t \<in> set ss. t < s}) ss)"
    by (rule fit_transform_strings)
  then show enc: "encode_feature (name, map Str ss) =
       Inr (name, int_column (map (\<lambda>s. card {t \<in> set ss. t < s}) ss))" for name
    by (simp add: encode_feature_def)
  have ex: "fit_transform [Str ''x'', Str ''y'', Str ''x'', Str ''z'']
      = Inr ([Str ''x'', Str ''y'', Str ''z''], [0, 1, 0, 2])"
    by (simp add: fit_transform_def classes_of_def np_unique_def)
  show "encode_feature (''feature_b'', [Str ''x'', Str ''y'', Str ''x'', Str ''z''])
       = Inr (''feature_b'', [Num 0, Num 1, Num 0, Num 2])"
    by (simp add: encode_feature_def ex int_column_def)
  show "process_data F Encoder [(''feature_b'', [Str ''x'', Str ''y'', Str ''x'', Str ''z''])]
       = Inr [(''feature_b_encoded'', [Num 0, Num 1, Num 0, Num 2])]"
    by (simp add: select_def ex int_column_def)
  assume "select df ''feature_b'' = [map Str ss]"
  then have "process_data F Encoder df =
       (case encode_feature (''feature_b'', map Str ss) of Inl e \<Rightarrow> Inl e
        | Inr r \<Rightarrow> Inr [(''feature_b_encoded'', snd r)])"
    by (rule process_data_Encoder_single)
  then show "process_data F Encoder df =
          Inr [(''feature_b_encoded'', int_column (map (\<lambda>s. card {t \<in> set ss. t < s}) ss))]"
    by (simp only: enc sum.case snd_conv)
qed

theorem encode_feature_sorted_codes_witness:
  "select [(''feature_a'', [Num 1, Num 3]), (''feature_b'', map Str [''y'', ''x''])] ''feature_b''
     = [map Str [''y'', ''x'']]
   \<and> process_data frame_each Encoder
        [(''feature_a'', [Num 1, Num 3]), (''feature_b'', map Str [''y'', ''x''])]
     = Inr [(''feature_b_encoded'', [Num 1, Num 0])]"
proof -
  have c1: "card {t \<in> set [''y'', ''x'']. t < ''y''} = 1"
  proof -
    have "{t \<in> set [''y'', ''x'']. t < ''y''} = {''x''}" by auto
    then show ?thesis by simp
  qed
  have c0: "card {t \<in> set [''y'', ''x'']. t < ''x''} = 0"
  proof -
    have "{t \<in> set [''y'', ''x'']. t < ''x''} = {}" by auto
    then show ?thesis by simp
  qed
  have se: "select [(''feature_a'', [Num 1, Num 3]), (''feature_b'', map Str [''y'', ''x''])]
      ''feature_b'' = [map Str [''y'', ''x'']]"
    by (simp add: select_def)
  have "process_data frame_each Encoder
        [(''feature_a'', [Num 1, Num 3]), (''feature_b'', map Str [''y'', ''x''])]
     = Inr [(''feature_b_encoded'',
             int_column (map (\<lambda>s. card {t \<in> set [''y'', ''x'']. t < s}) [''y'', ''x'']))]"
    using encode_feature_sorted_codes[of "[''y'', ''x'']" "''feature_b''"
      "[(''feature_a'', [Num 1, Num 3]), (''feature_b'', map Str [''y'', ''x''])]" frame_each] se
    by blast
  also have "int_column (map (\<lambda>s. card {t \<in> set [''y'', ''x'']. t < s}) [''y'', ''x''])
      = [Num 1, Num 0]"
    unfolding list.map int_column_def c1 c0 by simp
  finally show ?thesis using se by simp
qed

lemma set_str_values: "set (str_values y) = {s. Str s \<in> set y}"
  by (induction y rule: str_values.induct) auto

lemma set_numeric_values: "set (numeric_values y) = {x. Num x \<in> set y}"
  by (induction y rule: numeric_values.induct) auto

lemma not_ex_Str: "\<not> list_ex is_Str y \<Longrightarrow> Str s \<notin> set y"
  by (auto simp: list_ex_iff)

lemma classes_of_set:
  assumes "classes_of y = Inr classes"
  shows "set classes = set y \<and> distinct classes"
proof (cases "list_all (\<lambda>c. is_Str c \<or> c = NaN) y")
  case True
  then have cls: "classes = map Str (np_unique (str_values y)) @ (if NaN \<in> set y then [NaN] else [])"
    using assms by (simp add: classes_of_def)
  have mem: "c = NaN \<or> (\<exists>s. c = Str s)" if "c \<in> set y" for c
    using True that by (cases c) (auto simp: list_all_iff)
  have "set classes = set y"
    unfolding cls using np_unique_props[of "str_values y"] mem
    by (auto simp: set_str_values)
  moreover have "distinct classes"
    unfolding cls using np_unique_props[of "str_values y"]
    by (auto simp: distinct_map inj_on_def)
  ultimately show ?thesis by simp
next
  case False
  then have noStr: "\<not> list_ex is_Str y"
    using assms by (auto simp: classes_of_def split: if_splits)
  then have cls: "classes = (if NegInf \<in> set y then [NegInf] else [])
                @ map Num (np_unique (numeric_values y))
                @ (if PosInf \<in> set y then [PosInf] else [])
                @ (if NaN \<in> set y then [NaN] else [])"
    using assms False by (simp add: classes_of_def)
  have mem: "c = NaN \<or> c = PosInf \<or> c = NegInf \<or> (\<exists>x. c = Num x)" if "c \<in> set y" for c
    using not_ex_Str[OF noStr] that by (cases c) auto
  have "set classes = set y"
    unfolding cls using np_unique_props[of "numeric_values y"] mem
    by (auto simp: set_numeric_values)
  moreover have "distinct classes"
    unfolding cls using np_unique_props[of "numeric_values y"]
    by (auto simp: distinct_map inj_on_def)
  ultimately show ?thesis by simp
qed

lemma classes_of_categorical:
  "list_all (\<lambda>c. is_Str c \<or> c = NaN) y \<Longrightarrow> \<exists>classes. classes_of y = Inr classes"
  by (simp add: classes_of_def)

text \<open>
  \<^bold>\<open>C7\<close>. A column of strings, with or without missing entries, is always encoded, and the
  series returned by \<open>encode_feature\<close> holds the codes of that fit. Whenever a column is
  encoded, reading the codes back through the classes of that fit gives the column again,
  the classes are the values of the column without repetition, and two rows have the same
  code exactly when they have the same value. The same holds of the codes read from the
  column that \<open>encode_feature\<close> returns, which is the column that \<open>Encoder.process_data\<close>
  returns under the label \<open>feature_b_encoded\<close>.
\<close>

theorem label_encoder_round_trip:
  "(list_all (\<lambda>c. is_Str c \<or> c = NaN) y \<longrightarrow>
      (\<exists>classes codes. fit_transform y = Inr (classes, codes)
         \<and> encode_feature (name, y) = Inr (name, int_column codes)))
   \<and> (fit_transform y = Inr (classes, codes) \<longrightarrow>
        inverse_transform classes codes = Inr y
        \<and> distinct classes \<and> set classes = set y
        \<and> (\<forall>i < length y. \<forall>j < length y. (codes ! i = codes ! j) = (y ! i = y ! j)))
   \<and> (encode_feature (name, y) = Inr produced \<longrightarrow>
        fst produced = name \<and> length (snd produced) = length y
        \<and> (\<exists>classes'. fit_transform y = Inr (classes', column_codes (snd produced))
              \<and> inverse_transform classes' (column_codes (snd produced)) = Inr y)
        \<and> (\<forall>i < length y. \<forall>j < length y.
              (snd produced ! i = snd produced ! j) = (y ! i = y ! j)))
   \<and> (select df ''feature_b'' = [y] \<longrightarrow>
        process_data F Encoder df =
          (case encode_feature (''feature_b'', y) of Inl e \<Rightarrow> Inl e
           | Inr r \<Rightarrow> Inr [(''feature_b_encoded'', snd r)]))"
proof -
  have rt: "inverse_transform cls cds = Inr y
        \<and> distinct cls \<and> set cls = set y
        \<and> (\<forall>i < length y. \<forall>j < length y. (cds ! i = cds ! j) = (y ! i = y ! j))"
    if ft: "fit_transform y = Inr (cls, cds)" for cls cds
  proof -
    from ft have cls: "classes_of y = Inr cls" and codes: "cds = map (index_of cls) y"
      by (auto simp: fit_transform_def split: sum.splits)
    from classes_of_set[OF cls] have d: "distinct cls" and sets: "set cls = set y" by simp_all
    have ok: "index_of cls c < length cls \<and> cls ! index_of cls c = c" if "c \<in> set y" for c
      using index_of_nth[of c cls] sets that by simp
    then have "\<not> list_ex (\<lambda>i. length cls \<le> i) cds"
      unfolding codes by (fastforce simp: list_ex_iff)
    moreover have "map (\<lambda>i. cls ! i) cds = y"
      unfolding codes using ok by (simp add: map_idI)
    ultimately have inv: "inverse_transform cls cds = Inr y"
      by (simp add: inverse_transform_def)
    have "\<forall>i < length y. \<forall>j < length y. (cds ! i = cds ! j) = (y ! i = y ! j)"
    proof (intro allI impI)
      fix i j assume "i < length y" "j < length y"
      then have "y ! i \<in> set cls" "y ! j \<in> set cls" using sets by simp_all
      then show "(cds ! i = cds ! j) = (y ! i = y ! j)"
        unfolding codes using \<open>i < length y\<close> \<open>j < length y\<close> index_of_inj[of "y ! i" cls "y ! j"]
        by auto
    qed
    with inv d sets show ?thesis by simp
  qed
  have c1: "list_all (\<lambda>c. is_Str c \<or> c = NaN) y \<Longrightarrow>
      (\<exists>classes codes. fit_transform y = Inr (classes, codes)
         \<and> encode_feature (name, y) = Inr (name, int_column codes))"
    using classes_of_categorical[of y] by (auto simp: fit_transform_def encode_feature_def)
  have c3: "fst produced = name \<and> length (snd produced) = length y
        \<and> (\<exists>classes'. fit_transform y = Inr (classes', column_codes (snd produced))
              \<and> inverse_transform classes' (column_codes (snd produced)) = Inr y)
        \<and> (\<forall>i < length y. \<forall>j < length y.
              (snd produced ! i = snd produced ! j) = (y ! i = y ! j))"
    if enc: "encode_feature (name, y) = Inr produced"
  proof -
    from enc obtain cls cds where ft: "fit_transform y = Inr (cls, cds)"
      and pr: "produced = (name, int_column cds)"
      by (auto simp: encode_feature_def split: sum.splits prod.splits)
    have len: "length cds = length y"
      using ft by (auto simp: fit_transform_def split: sum.splits)
    have cc: "column_codes (snd produced) = cds" by (simp add: pr column_codes_int_column)
    have "\<forall>i < length y. \<forall>j < length y.
              (snd produced ! i = snd produced ! j) = (y ! i = y ! j)"
      using rt[OF ft] len by (simp add: pr int_column_nth_eq)
    moreover have "\<exists>classes'. fit_transform y = Inr (classes', column_codes (snd produced))
              \<and> inverse_transform classes' (column_codes (snd produced)) = Inr y"
      using rt[OF ft] ft cc by auto
    ultimately show ?thesis using len by (simp add: pr int_column_def)
  qed
  have c4: "select df ''feature_b'' = [y] \<Longrightarrow>
        process_data F Encoder df =
          (case encode_feature (''feature_b'', y) of Inl e \<Rightarrow> Inl e
           | Inr r \<Rightarrow> Inr [(''feature_b_encoded'', snd r)])"
    by (rule process_data_Encoder_single)
  show ?thesis
  proof (intro conjI impI)
    assume "list_all (\<lambda>c. is_Str c \<or> c = NaN) y"
    then show "\<exists>classes codes. fit_transform y = Inr (classes, codes)
         \<and> encode_feature (name, y) = Inr (name, int_column codes)"
      by (rule c1)
  next
    assume ft: "fit_transform y = Inr (classes, codes)"
    from rt[OF ft] show "inverse_transform classes codes = Inr y" by simp
    from rt[OF ft] show "distinct classes" by simp
    from rt[OF ft] show "set classes = set y" by simp
    from rt[OF ft] show "\<forall>i < length y. \<forall>j < length y. (codes ! i = codes ! j) = (y ! i = y ! j)"
      by simp
  next
    assume enc: "encode_feature (name, y) = Inr produced"
    from c3[OF enc] show "fst produced = name" by simp
    from c3[OF enc] show "length (snd produced) = length y" by simp
    from c3[OF enc] show "\<exists>classes'. fit_transform y = Inr (classes', column_codes (snd produced))
              \<and> inverse_transform classes' (column_codes (snd produced)) = Inr y"
      by simp
    from c3[OF enc] show "\<forall>i < length y. \<forall>j < length y.
              (snd produced ! i = snd produced ! j) = (y ! i = y ! j)"
      by simp
  next
    assume "select df ''feature_b'' = [y]"
    then show "process_data F Encoder df =
          (case encode_feature (''feature_b'', y) of Inl e \<Rightarrow> Inl e
           | Inr r \<Rightarrow> Inr [(''feature_b_encoded'', snd r)])"
      by (rule c4)
  qed
qed

theorem label_encoder_round_trip_witness:
  "list_all (\<lambda>c. is_Str c \<or> c = NaN) [Str ''x'', Str ''y'', NaN, Str ''x'']
   \<and> fit_transform [Str ''x'', Str ''y'', NaN, Str ''x''] = Inr ([Str ''x'', Str ''y'', NaN], [0, 1, 2, 0])
   \<and> inverse_transform [Str ''x'', Str ''y'', NaN] [0, 1, 2, 0] = Inr [Str ''x'', Str ''y'', NaN, Str ''x'']
   \<and> encode_feature (''feature_b'', [Str ''x'', Str ''y'', NaN, Str ''x''])
       = Inr (''feature_b'', [Num 0, Num 1, Num 2, Num 0])
   \<and> column_codes [Num 0, Num 1, Num 2, Num 0] = [0, 1, 2, 0]
   \<and> select [(''feature_b'', [Str ''x'', Str ''y'', NaN, Str ''x''])] ''feature_b''
       = [[Str ''x'', Str ''y'', NaN, Str ''x'']]
   \<and> process_data frame_each Encoder [(''feature_b'', [Str ''x'', Str ''y'', NaN, Str ''x''])]
       = Inr [(''feature_b_encoded'', [Num 0, Num 1, Num 2, Num 0])]
   \<and> (0::nat) < length [Str ''x'', Str ''y'', NaN, Str ''x'']
   \<and> (3::nat) < length [Str ''x'', Str ''y'', NaN, Str ''x'']
   \<and> ([Num 0, Num 1, Num 2, Num 0] ! 0 = [Num 0, Num 1, Num 2, Num 0] ! 3)
       = ([Str ''x'', Str ''y'', NaN, Str ''x''] ! 0 = [Str ''x'', Str ''y'', NaN, Str ''x''] ! 3)"
proof -
  have ft: "fit_transform [Str ''x'', Str ''y'', NaN, Str ''x'']
      = Inr ([Str ''x'', Str ''y'', NaN], [0, 1, 2, 0])"
    by (simp add: fit_transform_def classes_of_def np_unique_def)
  have en: "encode_feature (''feature_b'', [Str ''x'', Str ''y'', NaN, Str ''x''])
       = Inr (''feature_b'', [Num 0, Num 1, Num 2, Num 0])"
    by (simp add: encode_feature_def ft int_column_def)
  have se: "select [(''feature_b'', [Str ''x'', Str ''y'', NaN, Str ''x''])] ''feature_b''
       = [[Str ''x'', Str ''y'', NaN, Str ''x'']]"
    by (simp add: select_def)
  have cc: "column_codes [Num 0, Num 1, Num 2, Num 0] = [0, 1, 2, 0]"
    by (simp add: column_codes_def)
  note inst = label_encoder_round_trip[of "[Str ''x'', Str ''y'', NaN, Str ''x'']" "''feature_b''"
      "[Str ''x'', Str ''y'', NaN]" "[0, 1, 2, 0]" "(''feature_b'', [Num 0, Num 1, Num 2, Num 0])"
      "[(''feature_b'', [Str ''x'', Str ''y'', NaN, Str ''x''])]" frame_each]
  have inv: "inverse_transform [Str ''x'', Str ''y'', NaN] [0, 1, 2, 0]
      = Inr [Str ''x'', Str ''y'', NaN, Str ''x'']"
    using inst ft by blast
  have pd: "process_data frame_each Encoder [(''feature_b'', [Str ''x'', Str ''y'', NaN, Str ''x''])]
       = (case encode_feature (''feature_b'', [Str ''x'', Str ''y'', NaN, Str ''x'']) of
            Inl e \<Rightarrow> Inl e | Inr r \<Rightarrow> Inr [(''feature_b_encoded'', snd r)])"
    using inst se by blast
  have inj: "\<forall>i < length [Str ''x'', Str ''y'', NaN, Str ''x''].
      \<forall>j < length [Str ''x'', Str ''y'', NaN, Str ''x''].
        (snd (''feature_b'', [Num 0, Num 1, Num 2, Num 0]) ! i
           = snd (''feature_b'', [Num 0, Num 1, Num 2, Num 0]) ! j)
        = ([Str ''x'', Str ''y'', NaN, Str ''x''] ! i = [Str ''x'', Str ''y'', NaN, Str ''x''] ! j)"
    using inst en by blast
  have l0: "(0::nat) < length [Str ''x'', Str ''y'', NaN, Str ''x'']"
    and l3: "(3::nat) < length [Str ''x'', Str ''y'', NaN, Str ''x'']" by simp_all
  have "(snd (''feature_b'', [Num 0, Num 1, Num 2, Num 0]) ! 0
           = snd (''feature_b'', [Num 0, Num 1, Num 2, Num 0]) ! 3)
        = ([Str ''x'', Str ''y'', NaN, Str ''x''] ! 0 = [Str ''x'', Str ''y'', NaN, Str ''x''] ! 3)"
    using inj l0 l3 by blast
  then have e03: "([Num 0, Num 1, Num 2, Num 0] ! 0 = [Num 0, Num 1, Num 2, Num 0] ! 3)
       = ([Str ''x'', Str ''y'', NaN, Str ''x''] ! 0 = [Str ''x'', Str ''y'', NaN, Str ''x''] ! 3)"
    by (simp only: snd_conv)
  have pd': "process_data frame_each Encoder [(''feature_b'', [Str ''x'', Str ''y'', NaN, Str ''x''])]
       = Inr [(''feature_b_encoded'', [Num 0, Num 1, Num 2, Num 0])]"
    unfolding pd en by simp
  have ca: "list_all (\<lambda>c. is_Str c \<or> c = NaN) [Str ''x'', Str ''y'', NaN, Str ''x'']" by simp
  show ?thesis
    by (intro conjI ca ft inv en cc se pd' l0 l3 e03)
qed

section \<open>The pipeline of \<open>code_with_solid.py\<close>\<close>

lemma select_append: "select (a @ b) n = select a n @ select b n"
  by (simp add: select_def)

lemma select_absent: "n \<notin> set (map fst b) \<Longrightarrow> select b n = []"
  by (induction b) (auto simp: select_def)

lemma select_present: "select df n \<noteq> [] \<Longrightarrow> n \<in> set (map fst df)"
  using select_absent by blast

lemma select_distinct: "distinct (map fst df) \<Longrightarrow> length (select df n) \<le> 1"
proof (induction df)
  case Nil
  then show ?case by (simp add: select_def)
next
  case (Cons p df)
  show ?case
  proof (cases "fst p = n")
    case True
    then have "n \<notin> set (map fst df)" using Cons.prems by auto
    then have "select df n = []" by (rule select_absent)
    then show ?thesis using True by (simp add: select_def)
  next
    case False
    then show ?thesis using Cons by (simp add: select_def)
  qed
qed

lemma select_single:
  assumes "distinct (map fst df)" "select df n \<noteq> []"
  shows "\<exists>c. select df n = [c]"
proof -
  have "length (select df n) = 1"
    using select_distinct[OF assms(1), of n] assms(2) by (cases "select df n") auto
  then show ?thesis by (cases "select df n") auto
qed

lemma process_data_select:
  "select df (source_label p) = select df' (source_label p) \<Longrightarrow>
     process_data F p df = process_data F p df'"
  by (cases p) simp_all

lemma process_data_labels:
  "process_data F p df = Inr new \<Longrightarrow> set (map fst new) \<subseteq> {output_label p}"
  by (cases p) (auto split: list.splits sum.splits)

lemma process_data_present:
  "process_data F p df = Inr new \<Longrightarrow> select df (source_label p) \<noteq> []"
  by (cases p) (auto split: list.splits sum.splits)

lemma run_processors_prefix:
  "run_processors F ps df = Inr out \<Longrightarrow> \<exists>ex. out = df @ ex"
proof (induction ps arbitrary: df)
  case Nil
  then show ?case by simp
next
  case (Cons p ps)
  then obtain new where "process_data F p df = Inr new" "run_processors F ps (df @ new) = Inr out"
    by (auto split: sum.splits)
  then show ?case using Cons.IH[of "df @ new"] by auto
qed

lemma run_processors_fresh:
  "set (map fst ex) \<inter> set (map source_label ps) = {} \<Longrightarrow> reads_fresh ps \<Longrightarrow>
     run_processors F ps (df @ ex) = spec_run F ps df (df @ ex)"
proof (induction ps arbitrary: ex)
  case Nil
  then show ?case by simp
next
  case (Cons p ps)
  have "source_label p \<notin> set (map fst ex)" using Cons.prems(1) by auto
  then have "select (df @ ex) (source_label p) = select df (source_label p)"
    by (simp add: select_append select_absent)
  then have same: "process_data F p (df @ ex) = process_data F p df"
    by (rule process_data_select)
  show ?case
  proof (cases "process_data F p df")
    case (Inl e)
    then show ?thesis using same by simp
  next
    case (Inr new)
    have "output_label p \<notin> set (map source_label ps)" using Cons.prems(2) by simp
    moreover have "set (map fst new) \<subseteq> {output_label p}" by (rule process_data_labels[OF Inr])
    ultimately have "set (map fst new) \<inter> set (map source_label ps) = {}"
      by blast
    moreover have "set (map fst ex) \<inter> set (map source_label ps) = {}"
      using Cons.prems(1) by auto
    ultimately have "set (map fst (ex @ new)) \<inter> set (map source_label ps) = {}"
      by auto
    moreover have "reads_fresh ps" using Cons.prems(2) by simp
    ultimately have "run_processors F ps (df @ (ex @ new)) = spec_run F ps df (df @ (ex @ new))"
      by (rule Cons.IH)
    then show ?thesis using same Inr by simp
  qed
qed


text \<open>
  \<^bold>\<open>C1\<close>, as the code has it. The second \<open>NanFiller\<close> is given the frame that already holds
  the column returned by the first one, under the same label \<open>feature_c\<close>: it fills both
  and returns two columns. Invoked against the original table it would return one.
\<close>

theorem run_processors_accumulating_counterexample:
  "run_processors frame_each [NanFiller, NanFiller] [(''feature_c'', [Num 5, NaN])]
     = Inr [(''feature_c'', [Num 5, NaN]), (''feature_c'', [Num 5, Num (- 1)]),
            (''feature_c'', [Num 5, Num (- 1)]), (''feature_c'', [Num 5, Num (- 1)])]
   \<and> spec_run frame_each [NanFiller, NanFiller] [(''feature_c'', [Num 5, NaN])]
        [(''feature_c'', [Num 5, NaN])]
     = Inr [(''feature_c'', [Num 5, NaN]), (''feature_c'', [Num 5, Num (- 1)]),
            (''feature_c'', [Num 5, Num (- 1)])]
   \<and> run_processors frame_each [NanFiller, NanFiller] [(''feature_c'', [Num 5, NaN])]
     \<noteq> spec_run frame_each [NanFiller, NanFiller] [(''feature_c'', [Num 5, NaN])]
        [(''feature_c'', [Num 5, NaN])]"
  by (simp add: select_def fillna_def)


text \<open>
  \<^bold>\<open>C1\<close>, amended. \<open>DataPipeline.process\<close> gives each processor the accumulated frame. For
  every loaded table and every sequence of processors in which no processor reads a label
  that an earlier one has returned, the run is the run of the specification: each
  processor's output is its output on the original table, appended in order.
\<close>

theorem run_processors_independent:
  assumes "reads_fresh processors"
  shows "DataPipeline_process read_parquet F processors path fs =
           (case read_parquet path fs of Inl e \<Rightarrow> Inl e
            | Inr df \<Rightarrow> spec_run F processors df df)"
proof (cases "read_parquet path fs")
  case (Inl e)
  then show ?thesis by (simp add: DataPipeline_process_def)
next
  case (Inr df)
  have "run_processors F processors (df @ []) = spec_run F processors df (df @ [])"
    using assms by (intro run_processors_fresh) simp_all
  then show ?thesis using Inr by (simp add: DataPipeline_process_def)
qed

theorem run_processors_independent_witness:
  "reads_fresh [Standardizer, Encoder, NanFiller]
   \<and> DataPipeline_process read_files frame_each [Standardizer, Encoder, NanFiller]
        ''data/data.parquet''
        [(''data/data.parquet'',
          [(''feature_a'', [Num 1, Num 3]), (''feature_b'', [Str ''y'', Str ''x'']),
           (''feature_c'', [NaN, Num 5])])]
     = spec_run frame_each [Standardizer, Encoder, NanFiller]
         [(''feature_a'', [Num 1, Num 3]), (''feature_b'', [Str ''y'', Str ''x'']),
          (''feature_c'', [NaN, Num 5])]
         [(''feature_a'', [Num 1, Num 3]), (''feature_b'', [Str ''y'', Str ''x'']),
          (''feature_c'', [NaN, Num 5])]"
  using run_processors_independent[of "[Standardizer, Encoder, NanFiller]" read_files frame_each
      "''data/data.parquet''"
      "[(''data/data.parquet'',
          [(''feature_a'', [Num 1, Num 3]), (''feature_b'', [Str ''y'', Str ''x'']),
           (''feature_c'', [NaN, Num 5])])]"]
  by (simp add: read_files_def del: run_processors.simps spec_run.simps)

lemma default_run_distinct:
  assumes d: "distinct (map fst df)"
    and run: "run_processors F [Standardizer, Encoder, NanFiller] df = Inr out"
  shows "\<exists>a b c sa classes codes.
           select df ''feature_a'' = [a] \<and> select df ''feature_b'' = [b]
           \<and> select df ''feature_c'' = [c]
           \<and> standardize a = Inr sa \<and> fit_transform b = Inr (classes, codes)
           \<and> out = df @ [(''feature_a'', sa), (''feature_b_encoded'', int_column codes),
                          (''feature_c'', fillna c (Num (- 1)))]"
proof -
  from run obtain n1 where p1: "process_data F Standardizer df = Inr n1"
    and r1: "run_processors F [Encoder, NanFiller] (df @ n1) = Inr out"
    by (auto split: sum.splits)
  from r1 obtain n2 where p2: "process_data F Encoder (df @ n1) = Inr n2"
    and r2: "run_processors F [NanFiller] ((df @ n1) @ n2) = Inr out"
    by (auto split: sum.splits)
  from r2 obtain n3 where p3: "process_data F NanFiller ((df @ n1) @ n2) = Inr n3"
    and out: "out = ((df @ n1) @ n2) @ n3"
    by (auto split: sum.splits)
  from process_data_present[OF p1] select_single[OF d]
  obtain a where a: "select df ''feature_a'' = [a]" by auto
  with p1 obtain sa where sa: "standardize a = Inr sa" and n1: "n1 = [(''feature_a'', sa)]"
    by (auto split: sum.splits)
  have sb: "select (df @ n1) ''feature_b'' = select df ''feature_b''"
    by (simp add: select_append n1 select_def)
  from process_data_present[OF p2] sb select_single[OF d]
  obtain b where b: "select df ''feature_b'' = [b]" by auto
  with p2 sb obtain classes codes where ft: "fit_transform b = Inr (classes, codes)"
    and n2: "n2 = [(''feature_b_encoded'', int_column codes)]"
    by (auto split: sum.splits)
  have sc: "select ((df @ n1) @ n2) ''feature_c'' = select df ''feature_c''"
    by (simp add: select_append n1 n2 select_def)
  from process_data_present[OF p3] sc select_single[OF d]
  obtain c where c: "select df ''feature_c'' = [c]" by auto
  with p3 sc have n3: "n3 = [(''feature_c'', fillna c (Num (- 1)))]"
    by auto
  show ?thesis using a b c sa ft out n1 n2 n3 by simp
qed

text \<open>
  \<^bold>\<open>C9\<close>. With the default processors \<open>[Standardizer, Encoder, NanFiller]\<close>, the table
  returned by \<open>DataPipeline.process\<close> has a repeated column label. When the labels of the
  loaded table are unique, the loaded table has \<open>feature_a\<close> and \<open>feature_c\<close>, it is kept
  as the first columns of the result, and the labels added after it are \<open>feature_a\<close>,
  \<open>feature_b_encoded\<close> and \<open>feature_c\<close>.
\<close>

theorem default_pipeline_repeats_labels:
  assumes "read_parquet path fs = Inr df"
    and "DataPipeline_process read_parquet F [Standardizer, Encoder, NanFiller] path fs = Inr out"
  shows "\<not> distinct (map fst out)
    \<and> (distinct (map fst df) \<longrightarrow>
         ''feature_a'' \<in> set (map fst df) \<and> ''feature_c'' \<in> set (map fst df)
         \<and> take (length df) out = df
         \<and> map fst out = map fst df @ [''feature_a'', ''feature_b_encoded'', ''feature_c''])"
proof -
  have run: "run_processors F [Standardizer, Encoder, NanFiller] df = Inr out"
    using assms by (simp add: DataPipeline_process_def)
  have exact: "''feature_a'' \<in> set (map fst df) \<and> ''feature_c'' \<in> set (map fst df)
         \<and> take (length df) out = df
         \<and> map fst out = map fst df @ [''feature_a'', ''feature_b_encoded'', ''feature_c'']"
    if d: "distinct (map fst df)"
  proof -
    from default_run_distinct[OF d run] obtain a b c sa classes codes where
      a: "select df ''feature_a'' = [a]" and c: "select df ''feature_c'' = [c]"
      and out: "out = df @ [(''feature_a'', sa), (''feature_b_encoded'', int_column codes),
                          (''feature_c'', fillna c (Num (- 1)))]"
      by blast
    have "''feature_a'' \<in> set (map fst df)" by (rule select_present) (simp add: a)
    moreover have "''feature_c'' \<in> set (map fst df)" by (rule select_present) (simp add: c)
    ultimately show ?thesis using out by simp
  qed
  have "\<not> distinct (map fst out)"
  proof (cases "distinct (map fst df)")
    case True
    from exact[OF True] show ?thesis by auto
  next
    case False
    from run_processors_prefix[OF run] obtain ex where "out = df @ ex" ..
    then show ?thesis using False by simp
  qed
  then show ?thesis using exact by blast
qed

theorem default_pipeline_repeats_labels_witness:
  "read_files ''data/data.parquet''
      [(''data/data.parquet'',
        [(''feature_a'', [Num 1, Num 3]), (''feature_b'', [Str ''y'', Str ''x'']),
         (''feature_c'', [NaN, Num 5])])]
     = Inr [(''feature_a'', [Num 1, Num 3]), (''feature_b'', [Str ''y'', Str ''x'']),
            (''feature_c'', [NaN, Num 5])]
   \<and> DataPipeline_process read_files frame_each [Standardizer, Encoder, NanFiller]
        ''data/data.parquet''
        [(''data/data.parquet'',
          [(''feature_a'', [Num 1, Num 3]), (''feature_b'', [Str ''y'', Str ''x'']),
           (''feature_c'', [NaN, Num 5])])]
     = Inr [(''feature_a'', [Num 1, Num 3]), (''feature_b'', [Str ''y'', Str ''x'']),
            (''feature_c'', [NaN, Num 5]),
            (''feature_a'', [Num (- 1), Num 1]), (''feature_b_encoded'', [Num 1, Num 0]),
            (''feature_c'', [Num (- 1), Num 5])]
   \<and> distinct (map fst [(''feature_a'', [Num 1, Num 3]), (''feature_b'', [Str ''y'', Str ''x'']),
                 (''feature_c'', [NaN, Num 5])])
   \<and> \<not> distinct (map fst [(''feature_a'', [Num 1, Num 3]), (''feature_b'', [Str ''y'', Str ''x'']),
            (''feature_c'', [NaN, Num 5]),
            (''feature_a'', [Num (- 1), Num 1]), (''feature_b_encoded'', [Num 1, Num 0]),
            (''feature_c'', [Num (- 1), Num 5])])"
proof -
  have rd: "read_files ''data/data.parquet''
      [(''data/data.parquet'',
        [(''feature_a'', [Num 1, Num 3]), (''feature_b'', [Str ''y'', Str ''x'']),
         (''feature_c'', [NaN, Num 5])])]
     = Inr [(''feature_a'', [Num 1, Num 3]), (''feature_b'', [Str ''y'', Str ''x'']),
            (''feature_c'', [NaN, Num 5])]"
    by (simp add: read_files_def)
  have run: "DataPipeline_process read_files frame_each [Standardizer, Encoder, NanFiller]
        ''data/data.parquet''
        [(''data/data.parquet'',
          [(''feature_a'', [Num 1, Num 3]), (''feature_b'', [Str ''y'', Str ''x'']),
           (''feature_c'', [NaN, Num 5])])]
     = Inr [(''feature_a'', [Num 1, Num 3]), (''feature_b'', [Str ''y'', Str ''x'']),
            (''feature_c'', [NaN, Num 5]),
            (''feature_a'', [Num (- 1), Num 1]), (''feature_b_encoded'', [Num 1, Num 0]),
            (''feature_c'', [Num (- 1), Num 5])]"
    by (simp add: DataPipeline_process_def read_files_def select_def standardize_def np_std_def
        np_mean_def pstd_def mean_def fit_transform_def classes_of_def np_unique_def
        int_column_def fillna_def)
  from default_pipeline_repeats_labels[where read_parquet = read_files, OF rd run] rd run
  show ?thesis by simp
qed

section \<open>\<open>process\<close> of \<open>single_responsibility_1.py\<close>\<close>

lemma three_columns:
  assumes "map fst df = [n1, n2, n3]"
  shows "\<exists>a b c. df = [(n1, a), (n2, b), (n3, c)]"
proof -
  from assms obtain p1 p2 p3 where "df = [p1, p2, p3]"
    by (auto simp: map_eq_Cons_conv)
  then show ?thesis using assms by (cases p1, cases p2, cases p3) auto
qed

text \<open>
  \<^bold>\<open>C10\<close>. In \<open>single_responsibility_1.py\<close>, for a loaded table with the columns
  \<open>feature_a\<close>, \<open>feature_b\<close>, \<open>feature_c\<close>, the table handed to \<open>save_df\<close> has exactly
  these three labels: it is the labels of the loaded table zipped with the normalized, the
  encoded and the filled column. The codes are under \<open>feature_b\<close>; there is no column
  \<open>feature_b_encoded\<close>.
\<close>

theorem process_sr1_keeps_labels:
  assumes "load_data path fs = Inr df"
    and "map fst df = [''feature_a'', ''feature_b'', ''feature_c'']"
    and "processed_df D df = Inr out"
  shows "process_sr1 load_data save_df D path output_path fs = save_df out output_path fs
    \<and> map fst out = [''feature_a'', ''feature_b'', ''feature_c'']
    \<and> ''feature_b_encoded'' \<notin> set (map fst out)
    \<and> (\<exists>a b c normalized encoded.
          df = [(''feature_a'', a), (''feature_b'', b), (''feature_c'', c)]
          \<and> normalize_feature (''feature_a'', a) = Inr normalized
          \<and> encode_feature (''feature_b'', b) = Inr encoded
          \<and> out = zip (map fst df)
                     [snd normalized, snd encoded, snd (fill_feature (''feature_c'', c) (Num (- 1)))]
          \<and> map_of out ''feature_b'' = Some (snd encoded))"
proof -
  from three_columns[OF assms(2)] obtain a b c where
    df: "df = [(''feature_a'', a), (''feature_b'', b), (''feature_c'', c)]" by blast
  from assms(3) obtain normalized encoded where
    n: "normalize_feature (''feature_a'', a) = Inr normalized"
    and e: "encode_feature (''feature_b'', b) = Inr encoded"
    and out: "out = compose_df [normalized, encoded, fill_feature (''feature_c'', c) (Num (- 1))]
                 [''feature_a'', ''feature_b'', ''feature_c'']"
    unfolding df processed_df_def by (auto split: sum.splits)
  have out': "out = [(''feature_a'', snd normalized), (''feature_b'', snd encoded),
                     (''feature_c'', snd (fill_feature (''feature_c'', c) (Num (- 1))))]"
    unfolding out compose_df_def by simp
  have "process_sr1 load_data save_df D path output_path fs = save_df out output_path fs"
    using assms(1,3) by (simp add: process_sr1_def)
  moreover have "\<exists>a b c normalized encoded.
          df = [(''feature_a'', a), (''feature_b'', b), (''feature_c'', c)]
          \<and> normalize_feature (''feature_a'', a) = Inr normalized
          \<and> encode_feature (''feature_b'', b) = Inr encoded
          \<and> out = zip (map fst df)
                     [snd normalized, snd encoded, snd (fill_feature (''feature_c'', c) (Num (- 1)))]
          \<and> map_of out ''feature_b'' = Some (snd encoded)"
    using df n e out'
    by (intro exI[where x=a] exI[where x=b] exI[where x=c] exI[where x=normalized]
        exI[where x=encoded]) simp
  ultimately show ?thesis using out' by simp
qed

theorem process_sr1_keeps_labels_witness:
  "read_files ''data/data.parquet''
      [(''data/data.parquet'', [(''feature_a'', [Num 1, Num 3]), (''feature_b'', [Str ''y'', Str ''x'']),
                 (''feature_c'', [NaN, Num 5])])]
     = Inr [(''feature_a'', [Num 1, Num 3]), (''feature_b'', [Str ''y'', Str ''x'']),
                 (''feature_c'', [NaN, Num 5])]
   \<and> map fst [(''feature_a'', [Num 1, Num 3]), (''feature_b'', [Str ''y'', Str ''x'']),
                 (''feature_c'', [NaN, Num (5::real)])] = [''feature_a'', ''feature_b'', ''feature_c'']
   \<and> processed_df repeated_raise
        [(''feature_a'', [Num 1, Num 3]), (''feature_b'', [Str ''y'', Str ''x'']),
                 (''feature_c'', [NaN, Num 5])]
      = Inr [(''feature_a'', [Num (- 1), Num 1]), (''feature_b'', [Num 1, Num 0]),
             (''feature_c'', [Num (- 1), Num 5])]
   \<and> process_sr1 read_files write_files repeated_raise
        ''data/data.parquet'' ''data/preprocessed_data.parquet''
        [(''data/data.parquet'', [(''feature_a'', [Num 1, Num 3]), (''feature_b'', [Str ''y'', Str ''x'']),
                 (''feature_c'', [NaN, Num 5])])]
      = ([(''data/preprocessed_data.parquet'',
            [(''feature_a'', [Num (- 1), Num 1]), (''feature_b'', [Num 1, Num 0]),
             (''feature_c'', [Num (- 1), Num 5])]),
          (''data/data.parquet'', [(''feature_a'', [Num 1, Num 3]), (''feature_b'', [Str ''y'', Str ''x'']),
                 (''feature_c'', [NaN, Num 5])])], None)"
proof -
  have rd: "read_files ''data/data.parquet''
      [(''data/data.parquet'', [(''feature_a'', [Num 1, Num 3]), (''feature_b'', [Str ''y'', Str ''x'']),
                 (''feature_c'', [NaN, Num 5])])]
     = Inr [(''feature_a'', [Num 1, Num 3]), (''feature_b'', [Str ''y'', Str ''x'']),
                 (''feature_c'', [NaN, Num 5])]"
    by (simp add: read_files_def)
  have nm: "map fst [(''feature_a'', [Num 1, Num 3]), (''feature_b'', [Str ''y'', Str ''x'']),
                 (''feature_c'', [NaN, Num (5::real)])] = [''feature_a'', ''feature_b'', ''feature_c'']"
    by simp
  have pr: "processed_df repeated_raise
        [(''feature_a'', [Num 1, Num 3]), (''feature_b'', [Str ''y'', Str ''x'']),
                 (''feature_c'', [NaN, Num 5])]
      = Inr [(''feature_a'', [Num (- 1), Num 1]), (''feature_b'', [Num 1, Num 0]),
             (''feature_c'', [Num (- 1), Num 5])]"
    by (simp add: processed_df_def compose_df_def normalize_feature_def encode_feature_def
        fill_feature_def standardize_def np_std_def np_mean_def pstd_def mean_def
        fit_transform_def classes_of_def np_unique_def int_column_def fillna_def)
  from process_sr1_keeps_labels[where load_data = read_files and save_df = write_files
      and output_path = "''data/preprocessed_data.parquet''", OF rd nm pr] rd nm pr
  show ?thesis by (simp add: write_files_def)
qed

section \<open>The steps that write into the frame\<close>

lemma map_of_setitem: "map_of (setitem df n v) m = (if m = n then Some v else map_of df m)"
  by (induction df) auto

lemma labels_setitem:
  "map fst (setitem df n v) = (if n \<in> set (map fst df) then map fst df else map fst df @ [n])"
  by (induction df) auto

lemma distinct_setitem: "distinct (map fst df) \<Longrightarrow> distinct (map fst (setitem df n v))"
  by (simp add: labels_setitem)

lemma map_of_absent: "n \<notin> set (map fst df) \<Longrightarrow> map_of df n = None"
  by (simp add: map_of_eq_None_iff)

lemma apply_setitem:
  assumes "distinct (map fst df)" "apply D s df = Inr df'"
  shows "\<exists>src new. map_of df (source s) = Some src \<and> df' = setitem df (written_label s) new
           \<and> (case s of
                 NormalizeFeature feature_name \<Rightarrow> standardize src = Inr new
               | EncodeCategoricalFeature feature_name encoded_feature_name \<Rightarrow>
                   (\<exists>classes codes. fit_transform src = Inr (classes, codes)
                      \<and> new = int_column codes)
               | FillNaNFeature feature_name fill_value \<Rightarrow> new = fillna src fill_value)"
  using assms by (cases s) (auto split: option.splits sum.splits)

lemma apply_distinct:
  "distinct (map fst df) \<Longrightarrow> apply D s df = Inr df' \<Longrightarrow> distinct (map fst df')"
  using apply_setitem distinct_setitem by blast

lemma apply_missing:
  "distinct (map fst df) \<Longrightarrow> source s \<notin> set (map fst df) \<Longrightarrow>
     apply D s df = Inl (KeyError (source s))"
  by (cases s) (simp_all add: map_of_absent)

lemma run_steps_append:
  "run_steps D (pre @ post) df =
     (case run_steps D pre df of Inl e \<Rightarrow> Inl e | Inr df' \<Rightarrow> run_steps D post df')"
  by (induction pre arbitrary: df) (auto split: sum.splits)

lemma run_steps_distinct:
  "distinct (map fst df) \<Longrightarrow> run_steps D steps df = Inr df' \<Longrightarrow> distinct (map fst df')"
proof (induction steps arbitrary: df)
  case Nil
  then show ?case by simp
next
  case (Cons s steps)
  from Cons.prems(2) obtain d where a: "apply D s df = Inr d" and r: "run_steps D steps d = Inr df'"
    by (auto split: sum.splits)
  from apply_distinct[OF Cons.prems(1) a] r show ?case by (rule Cons.IH)
qed

lemma run_processors_missing:
  "p \<in> set ps \<Longrightarrow> source_label p \<notin> set (map fst df) \<Longrightarrow> \<exists>e. run_processors F ps df = Inl e"
proof (induction ps arbitrary: df)
  case Nil
  then show ?case by simp
next
  case (Cons q ps)
  show ?case
  proof (cases "process_data F q df")
    case (Inl e)
    then show ?thesis by simp
  next
    case (Inr new)
    have "select df (source_label p) = []" using Cons.prems(2) by (rule select_absent)
    then have qp: "q \<noteq> p" using process_data_present[OF Inr] by auto
    then have "output_label q \<noteq> source_label p" by (cases q; cases p) simp_all
    then have "source_label p \<notin> set (map fst (df @ new))"
      using Cons.prems(2) process_data_labels[OF Inr] by auto
    moreover have "p \<in> set ps" using Cons.prems(1) qp by simp
    ultimately have "\<exists>e. run_processors F ps (df @ new) = Inl e" by (intro Cons.IH)
    then show ?thesis using Inr by simp
  qed
qed

lemma run_processors_take:
  "run_processors F ps df = Inr out \<Longrightarrow> take (length df) out = df"
  using run_processors_prefix by fastforce


text \<open>
  \<^bold>\<open>C2\<close>, as the code has it. The second step reads \<open>feature_b_encoded\<close>, a column that the
  loaded table does not have. The run does not fail: the first step has created the
  column by the time the second one reads it, and the result is written.
\<close>

theorem process_created_column_counterexample:
  "''feature_b_encoded'' \<notin> set (map fst [(''feature_b'', [Str ''x'', Str ''y''])])
   \<and> process_open_close read_files write_files repeated_raise_step
        ''data/data.parquet'' ''data/preprocessed_data.parquet''
        [EncodeCategoricalFeature ''feature_b'' ''feature_b_encoded'',
         FillNaNFeature ''feature_b_encoded'' (Num (- 1))]
        [(''data/data.parquet'', [(''feature_b'', [Str ''x'', Str ''y''])])]
     = (Inr [(''feature_b'', [Str ''x'', Str ''y'']), (''feature_b_encoded'', [Num 0, Num 1])],
        [(''data/preprocessed_data.parquet'',
            [(''feature_b'', [Str ''x'', Str ''y'']), (''feature_b_encoded'', [Num 0, Num 1])]),
         (''data/data.parquet'', [(''feature_b'', [Str ''x'', Str ''y''])])])"
  by (simp add: process_open_close_def read_files_def write_files_def fit_transform_def
      classes_of_def np_unique_def int_column_def fillna_def)


text \<open>
  \<^bold>\<open>C2\<close>, amended. Nothing is checked before the first step. A step whose source column is
  absent from the frame when the step is reached, after the earlier steps have run, raises
  pandas' \<open>KeyError\<close> for that column; \<open>process\<close> of \<open>open_close.py\<close> then returns no table
  and leaves the file system as it was, as it does whenever a step raises. In
  \<open>code_with_solid.py\<close>, where no processor creates the column another one reads, a
  processor whose source column is absent from the loaded table makes
  \<open>DataPipeline.process\<close> raise.
\<close>

theorem process_missing_column:
  assumes "read_parquet path fs = Inr df" and "distinct (map fst df)"
  shows "(run_steps D steps df = Inl e \<longrightarrow>
            process_open_close read_parquet to_parquet D path output_path steps fs = (Inl e, fs))
    \<and> (run_steps D pre df = Inr df' \<and> source s \<notin> set (map fst df') \<longrightarrow>
            process_open_close read_parquet to_parquet D path output_path (pre @ s # post) fs
              = (Inl (KeyError (source s)), fs))
    \<and> (p \<in> set processors \<and> source_label p \<notin> set (map fst df) \<longrightarrow>
            (\<exists>e'. DataPipeline_process read_parquet F processors path fs = Inl e'))"
proof (intro conjI impI)
  assume "run_steps D steps df = Inl e"
  then show "process_open_close read_parquet to_parquet D path output_path steps fs = (Inl e, fs)"
    using assms(1) by (simp add: process_open_close_def)
next
  assume a: "run_steps D pre df = Inr df' \<and> source s \<notin> set (map fst df')"
  then have "distinct (map fst df')" using run_steps_distinct[OF assms(2)] by blast
  then have "apply D s df' = Inl (KeyError (source s))" using a by (intro apply_missing) simp_all
  then have "run_steps D (pre @ s # post) df = Inl (KeyError (source s))"
    using a by (simp add: run_steps_append)
  then show "process_open_close read_parquet to_parquet D path output_path (pre @ s # post) fs
              = (Inl (KeyError (source s)), fs)"
    using assms(1) by (simp add: process_open_close_def)
next
  assume a: "p \<in> set processors \<and> source_label p \<notin> set (map fst df)"
  then have "\<exists>e'. run_processors F processors df = Inl e'"
    using run_processors_missing[of p processors df F] by simp
  then show "\<exists>e'. DataPipeline_process read_parquet F processors path fs = Inl e'"
    using assms(1) by (simp add: DataPipeline_process_def)
qed

theorem process_missing_column_witness:
  "read_files ''data/data.parquet'' [(''data/data.parquet'', [(''feature_c'', [Num 5, NaN])])]
     = Inr [(''feature_c'', [Num 5, NaN])]
   \<and> distinct (map fst [(''feature_c'', [Num 5, NaN])])
   \<and> run_steps repeated_raise_step [FillNaNFeature ''feature_c'' (Num (- 1))]
        [(''feature_c'', [Num 5, NaN])] = Inr [(''feature_c'', [Num 5, Num (- 1)])]
   \<and> source (NormalizeFeature ''feature_a'') \<notin> set (map fst [(''feature_c'', [Num 5, Num (- 1)])])
   \<and> run_steps repeated_raise_step
        [FillNaNFeature ''feature_c'' (Num (- 1)), NormalizeFeature ''feature_a'']
        [(''feature_c'', [Num 5, NaN])] = Inl (KeyError ''feature_a'')
   \<and> process_open_close read_files write_files repeated_raise_step
        ''data/data.parquet'' ''data/preprocessed_data.parquet''
        [FillNaNFeature ''feature_c'' (Num (- 1)), NormalizeFeature ''feature_a'']
        [(''data/data.parquet'', [(''feature_c'', [Num 5, NaN])])]
      = (Inl (KeyError ''feature_a''), [(''data/data.parquet'', [(''feature_c'', [Num 5, NaN])])])
   \<and> Standardizer \<in> set [NanFiller, Standardizer]
   \<and> source_label Standardizer \<notin> set (map fst [(''feature_c'', [Num 5, NaN])])
   \<and> DataPipeline_process read_files frame_each [NanFiller, Standardizer] ''data/data.parquet''
        [(''data/data.parquet'', [(''feature_c'', [Num 5, NaN])])] = Inl (KeyError ''feature_a'')"
proof -
  have rd: "read_files ''data/data.parquet'' [(''data/data.parquet'', [(''feature_c'', [Num 5, NaN])])]
     = Inr [(''feature_c'', [Num 5, NaN])]"
    by (simp add: read_files_def)
  have d: "distinct (map fst [(''feature_c'', [Num 5, NaN])])" by simp
  have pre: "run_steps repeated_raise_step [FillNaNFeature ''feature_c'' (Num (- 1))]
        [(''feature_c'', [Num 5, NaN])] = Inr [(''feature_c'', [Num 5, Num (- 1)])]"
    by (simp add: fillna_def)
  have all: "run_steps repeated_raise_step
        [FillNaNFeature ''feature_c'' (Num (- 1)), NormalizeFeature ''feature_a'']
        [(''feature_c'', [Num 5, NaN])] = Inl (KeyError ''feature_a'')"
    by (simp add: fillna_def)
  have dp: "DataPipeline_process read_files frame_each [NanFiller, Standardizer]
        ''data/data.parquet''
        [(''data/data.parquet'', [(''feature_c'', [Num 5, NaN])])] = Inl (KeyError ''feature_a'')"
    by (simp add: DataPipeline_process_def read_files_def select_def fillna_def)
  from process_missing_column[where read_parquet = read_files and D = repeated_raise_step
      and steps = "[FillNaNFeature ''feature_c'' (Num (- 1)), NormalizeFeature ''feature_a'']"
      and e = "KeyError ''feature_a''" and pre = "[FillNaNFeature ''feature_c'' (Num (- 1))]"
      and df' = "[(''feature_c'', [Num 5, Num (- 1)])]" and s = "NormalizeFeature ''feature_a''"
      and post = "[]" and to_parquet = write_files
      and output_path = "''data/preprocessed_data.parquet''"
      and p = Standardizer
      and processors = "[NanFiller, Standardizer]" and F = frame_each, OF rd d]
    rd d pre all dp
  show ?thesis by simp
qed


text \<open>
  \<^bold>\<open>C8\<close>, as the code has it. \<open>FillNaNFeature.apply\<close> and \<open>NormalizeFeature.apply\<close> assign
  to the column they read: after the call the frame holds the filled, or the normalized,
  column in the place of the source column.
\<close>

theorem apply_overwrites_counterexample:
  "apply repeated_raise_step (FillNaNFeature ''feature_c'' (Num (- 1)))
      [(''feature_a'', [Num 1, Num 3]), (''feature_c'', [Num 5, NaN])]
     = Inr [(''feature_a'', [Num 1, Num 3]), (''feature_c'', [Num 5, Num (- 1)])]
   \<and> apply repeated_raise_step (NormalizeFeature ''feature_a'')
      [(''feature_a'', [Num 1, Num 3]), (''feature_c'', [Num 5, NaN])]
     = Inr [(''feature_a'', [Num (- 1), Num 1]), (''feature_c'', [Num 5, NaN])]"
  by (simp add: fillna_def standardize_def np_std_def np_mean_def pstd_def mean_def)


text \<open>
  \<^bold>\<open>C8\<close>, amended. A step changes one column of the frame, the one it assigns (its source
  column for \<open>NormalizeFeature\<close> and \<open>FillNaNFeature\<close>, \<open>encoded_feature_name\<close> for
  \<open>EncodeCategoricalFeature\<close>), to the value computed from its source column; every other
  column is left as it was, and the labels keep their order, a new label coming last. The
  processors of \<open>code_with_solid.py\<close> leave the loaded table as it was:
  \<open>DataPipeline.process\<close> returns it as the first columns of its result.
\<close>

theorem apply_frame:
  assumes "distinct (map fst df)" and "apply D s df = Inr df'"
  shows "(\<forall>n. n \<noteq> written_label s \<longrightarrow> map_of df' n = map_of df n)
    \<and> map fst df' = (if written_label s \<in> set (map fst df) then map fst df
                      else map fst df @ [written_label s])
    \<and> (\<exists>src new. map_of df (source s) = Some src \<and> map_of df' (written_label s) = Some new
          \<and> (case s of
                NormalizeFeature feature_name \<Rightarrow> standardize src = Inr new
              | EncodeCategoricalFeature feature_name encoded_feature_name \<Rightarrow>
                  (\<exists>classes codes. fit_transform src = Inr (classes, codes)
                     \<and> new = int_column codes)
              | FillNaNFeature feature_name fill_value \<Rightarrow> new = fillna src fill_value))
    \<and> (run_processors F processors df = Inr out \<longrightarrow> take (length df) out = df)"
proof -
  from apply_setitem[OF assms] obtain src new where
    src: "map_of df (source s) = Some src" and df': "df' = setitem df (written_label s) new"
    and new: "case s of
                NormalizeFeature feature_name \<Rightarrow> standardize src = Inr new
              | EncodeCategoricalFeature feature_name encoded_feature_name \<Rightarrow>
                  (\<exists>classes codes. fit_transform src = Inr (classes, codes)
                     \<and> new = int_column codes)
              | FillNaNFeature feature_name fill_value \<Rightarrow> new = fillna src fill_value"
    by blast
  have "\<forall>n. n \<noteq> written_label s \<longrightarrow> map_of df' n = map_of df n"
    by (simp add: df' map_of_setitem)
  moreover have "map fst df' = (if written_label s \<in> set (map fst df) then map fst df
                      else map fst df @ [written_label s])"
    unfolding df' by (rule labels_setitem)
  moreover have "map_of df' (written_label s) = Some new"
    by (simp add: df' map_of_setitem)
  moreover have "run_processors F processors df = Inr out \<longrightarrow> take (length df) out = df"
    using run_processors_take by blast
  ultimately show ?thesis using src new by blast
qed

theorem apply_frame_witness:
  "distinct (map fst [(''feature_a'', [Num 1, Num 3]), (''feature_c'', [Num 5, NaN])])
   \<and> apply repeated_raise_step (FillNaNFeature ''feature_c'' (Num (- 1)))
        [(''feature_a'', [Num 1, Num 3]), (''feature_c'', [Num 5, NaN])]
     = Inr [(''feature_a'', [Num 1, Num 3]), (''feature_c'', [Num 5, Num (- 1)])]
   \<and> ''feature_a'' \<noteq> written_label (FillNaNFeature ''feature_c'' (Num (- 1)))
   \<and> map_of [(''feature_a'', [Num 1, Num 3]), (''feature_c'', [Num 5, Num (- 1)])] ''feature_a''
       = map_of [(''feature_a'', [Num 1, Num 3]), (''feature_c'', [Num 5, NaN])] ''feature_a''
   \<and> run_processors frame_each [NanFiller]
        [(''feature_a'', [Num 1, Num 3]), (''feature_c'', [Num 5, NaN])]
     = Inr [(''feature_a'', [Num 1, Num 3]), (''feature_c'', [Num 5, NaN]),
            (''feature_c'', [Num 5, Num (- 1)])]
   \<and> take (length [(''feature_a'', [Num 1, Num 3]), (''feature_c'', [Num 5, NaN])])
        [(''feature_a'', [Num 1, Num 3]), (''feature_c'', [Num 5, NaN]),
            (''feature_c'', [Num 5, Num (- 1)])]
     = [(''feature_a'', [Num 1, Num 3]), (''feature_c'', [Num 5, NaN])]"
proof -
  have d: "distinct (map fst [(''feature_a'', [Num 1, Num 3]), (''feature_c'', [Num 5, NaN])])"
    by simp
  have a: "apply repeated_raise_step (FillNaNFeature ''feature_c'' (Num (- 1)))
        [(''feature_a'', [Num 1, Num 3]), (''feature_c'', [Num 5, NaN])]
     = Inr [(''feature_a'', [Num 1, Num 3]), (''feature_c'', [Num 5, Num (- 1)])]"
    by (simp add: fillna_def)
  have r: "run_processors frame_each [NanFiller]
        [(''feature_a'', [Num 1, Num 3]), (''feature_c'', [Num 5, NaN])]
     = Inr [(''feature_a'', [Num 1, Num 3]), (''feature_c'', [Num 5, NaN]),
            (''feature_c'', [Num 5, Num (- 1)])]"
    by (simp add: select_def fillna_def)
  from apply_frame[OF d a, where F = frame_each and processors = "[NanFiller]"
      and out = "[(''feature_a'', [Num 1, Num 3]), (''feature_c'', [Num 5, NaN]),
            (''feature_c'', [Num 5, Num (- 1)])]"] d a r
  show ?thesis by simp
qed

end
